theory Spec2Isabelle
  imports Main
begin

section \<open>Data model of pkg/upgrade/upgrade\_state.go\<close>

text \<open>
  The cluster upgrade state manager reads a snapshot of node upgrade units and a policy,
  and talks to four collaborators (state provider, cordon manager, pod manager, drain
  manager) through interfaces. The embedding keeps the Kubernetes objects down to the
  fields the manager reads, records every collaborator call in a trace, and takes the
  collaborators' answers as parameters.

  Go errors are opaque values; here an error is its message.
\<close>

type_synonym error = string

text \<open>\<open>v1.Node\<close>: name, labels, annotations and \<open>Spec.Unschedulable\<close>. A Go map from
  string to string is an association list read with \<open>map_of\<close>.\<close>

record v1_Node =
  Name :: string
  Labels :: "(string \<times> string) list"
  Annotations :: "(string \<times> string) list"
  Unschedulable :: bool

record ContainerStatus =
  Ready :: bool

text \<open>\<open>v1.Pod\<close>. \<open>PodTemplateGeneration\<close> holds what \<open>utils.GetPodTemplateGeneration\<close>
  returns for the pod (the helper lies outside this source file, so its result is a
  parameter of the pod): \<open>Inl\<close> its error, \<open>Inr\<close> the generation. \<open>DeletionTimestamp\<close>
  is the optional \<open>ObjectMeta.DeletionTimestamp\<close>, counted from Go's zero instant.
  \<open>Phase\<close> and \<open>ContainerStatuses\<close> are the fields of \<open>Status\<close>.\<close>

record v1_Pod =
  PodName :: string
  PodTemplateGeneration :: "error + int"
  DeletionTimestamp :: "int option"
  Phase :: string
  ContainerStatuses :: "ContainerStatus list"

record appsv1_DaemonSet =
  Generation :: int

text \<open>A node upgrade unit. The three pointers of the Go struct are taken to be non-nil,
  as the snapshot builder leaves them: every processor dereferences them unguarded.\<close>

record NodeUpgradeState =
  Node :: v1_Node
  DriverPod :: v1_Pod
  DriverDaemonSet :: appsv1_DaemonSet

text \<open>Modelled from the spec: the ten phase constants \<open>UpgradeStateUnknown\<close>, ... are
  declared outside this source file; the spec gives a phase as one of ten plain values.\<close>

datatype upgrade_state =
    UpgradeStateUnknown
  | UpgradeStateDone
  | UpgradeStateUpgradeRequired
  | UpgradeStateCordonRequired
  | UpgradeStateWaitForJobsRequired
  | UpgradeStatePodDeletionRequired
  | UpgradeStateDrainRequired
  | UpgradeStatePodRestartRequired
  | UpgradeStateFailed
  | UpgradeStateUncordonRequired

text \<open>\<open>NodeStates\<close> is a Go map to slices: a phase without an entry reads as the nil
  slice, here the empty list.\<close>

record ClusterUpgradeState =
  NodeStates :: "upgrade_state \<Rightarrow> NodeUpgradeState list"

subsection \<open>Upgrade policy\<close>

record WaitForCompletionSpec =
  PodSelector :: string

text \<open>The pod deletion spec is handed to the pod manager unread.\<close>

typedecl PodDeletionSpec

record DrainSpec =
  Enable :: bool
  PodSelector :: string

text \<open>\<open>MaxParallelUpgrades\<close> is a Go \<open>int\<close>: a value in \<open>[-2^63, 2^63)\<close>.\<close>

record DriverUpgradePolicySpec =
  AutoUpgrade :: bool
  MaxParallelUpgrades :: int
  WaitForCompletion :: "WaitForCompletionSpec option"
  PodDeletion :: "PodDeletionSpec option"
  DrainSpec :: "DrainSpec option"

subsection \<open>Collaborators\<close>

record PodManagerConfig =
  Selector :: string
  DeletionSpec :: "PodDeletionSpec option"
  Nodes :: "v1_Node list"

text \<open>\<open>Spec\<close> is the drain spec as the drain manager finds it behind the pointer at the
  moment of the call.\<close>

record DrainConfiguration =
  Spec :: DrainSpec
  Nodes :: "v1_Node list"

datatype call =
    ChangeNodeUpgradeState v1_Node upgrade_state
  | ChangeNodeUpgradeAnnotation v1_Node string string
  | Cordon v1_Node
  | Uncordon v1_Node
  | ScheduleCheckOnPodCompletion PodManagerConfig
  | SchedulePodEviction PodManagerConfig
  | SchedulePodsRestart "v1_Pod list"
  | ScheduleNodesDrain DrainConfiguration

text \<open>An event is a call with the answer it got (\<open>None\<close> is Go's nil error). A
  collaborator answers a call knowing everything that happened before; since the trace
  grows with every call, any sequence of answers is some collaborator.\<close>

type_synonym event = "call \<times> error option"
type_synonym trace = "event list"
type_synonym collaborator = "trace \<Rightarrow> call \<Rightarrow> error option"

text \<open>The manager with its four collaborators. The three key getters
  \<open>GetUpgradeInitialStateAnnotationKey\<close>, \<open>GetUpgradeSkipNodeLabelKey\<close> and
  \<open>GetUpgradeSkipDrainPodLabelKey\<close> are package functions outside this source file;
  their values travel with the manager as parameters.\<close>

record ClusterUpgradeStateManager =
  DrainManager :: collaborator
  PodManager :: collaborator
  CordonManager :: collaborator
  NodeUpgradeStateProvider :: collaborator
  UpgradeInitialStateAnnotationKey :: string
  UpgradeSkipNodeLabelKey :: string
  UpgradeSkipDrainPodLabelKey :: string

definition invoke :: "collaborator \<Rightarrow> call \<Rightarrow> trace \<Rightarrow> error option \<times> trace" where
  "invoke c a tr = (let r = c tr a in (r, tr @ [(a, r)]))"

text \<open>A \<open>for ... range\<close> loop whose body may return an error from the enclosing function.\<close>

fun forEach :: "('a \<Rightarrow> trace \<Rightarrow> error option \<times> trace) \<Rightarrow> 'a list \<Rightarrow> trace
    \<Rightarrow> error option \<times> trace" where
  "forEach body [] tr = (None, tr)"
| "forEach body (x # xs) tr =
     (case body x tr of
        (Some err, tr') \<Rightarrow> (Some err, tr')
      | (None, tr') \<Rightarrow> forEach body xs tr')"

text \<open>Subtraction on Go's 64-bit \<open>int\<close> wraps around.\<close>

definition wrap_int :: "int \<Rightarrow> int" where
  "wrap_int x = (x + 2 ^ 63) mod 2 ^ 64 - 2 ^ 63"

section \<open>Helpers of the state manager\<close>

definition isNodeUnschedulable :: "v1_Node \<Rightarrow> bool" where
  "isNodeUnschedulable node = (if Unschedulable node then True else False)"

text \<open>A missing label reads as the empty string, which is not \<open>true\<close>.\<close>

definition skipNodeUpgrade :: "ClusterUpgradeStateManager \<Rightarrow> v1_Node \<Rightarrow> bool" where
  "skipNodeUpgrade m node =
     (if map_of (Labels node) (UpgradeSkipNodeLabelKey m) = Some ''true'' then True else False)"

text \<open>The loop over the container statuses of \<open>isDriverPodInSync\<close>.\<close>

fun containersReady :: "ContainerStatus list \<Rightarrow> bool" where
  "containersReady [] = True"
| "containersReady (c # cs) = (if \<not> Ready c then False else containersReady cs)"

definition isDriverPodInSync :: "NodeUpgradeState \<Rightarrow> error + bool" where
  "isDriverPodInSync nodeState =
     (case PodTemplateGeneration (DriverPod nodeState) of
        Inl err \<Rightarrow> Inl err
      | Inr podTemplateGeneration \<Rightarrow>
          if podTemplateGeneration = Generation (DriverDaemonSet nodeState)
             \<and> Phase (DriverPod nodeState) = ''Running''
             \<and> length (ContainerStatuses (DriverPod nodeState)) \<noteq> 0
          then Inr (containersReady (ContainerStatuses (DriverPod nodeState)))
          else Inr False)"

text \<open>\<open>DeletionTimestamp.IsZero()\<close>: a nil pointer or the zero instant.\<close>

definition IsZero :: "int option \<Rightarrow> bool" where
  "IsZero t = (case t of None \<Rightarrow> True | Some v \<Rightarrow> v = 0)"

section \<open>Phase processors\<close>

definition ProcessDoneOrUnknownNodes_body ::
  "ClusterUpgradeStateManager \<Rightarrow> upgrade_state \<Rightarrow> NodeUpgradeState \<Rightarrow> trace
    \<Rightarrow> error option \<times> trace" where
  "ProcessDoneOrUnknownNodes_body m nodeStateName nodeState tr =
     (case PodTemplateGeneration (DriverPod nodeState) of
        Inl err \<Rightarrow> (Some err, tr)
      | Inr podTemplateGeneration \<Rightarrow>
          if podTemplateGeneration \<noteq> Generation (DriverDaemonSet nodeState) then
            (case (if isNodeUnschedulable (Node nodeState)
                   then invoke (NodeUpgradeStateProvider m)
                          (ChangeNodeUpgradeAnnotation (Node nodeState)
                             (UpgradeInitialStateAnnotationKey m) ''true'') tr
                   else (None, tr)) of
               (Some err, tr1) \<Rightarrow> (Some err, tr1)
             | (None, tr1) \<Rightarrow>
                 invoke (NodeUpgradeStateProvider m)
                   (ChangeNodeUpgradeState (Node nodeState) UpgradeStateUpgradeRequired) tr1)
          else if nodeStateName = UpgradeStateUnknown then
            invoke (NodeUpgradeStateProvider m)
              (ChangeNodeUpgradeState (Node nodeState) UpgradeStateDone) tr
          else (None, tr))"

definition ProcessDoneOrUnknownNodes ::
  "ClusterUpgradeStateManager \<Rightarrow> ClusterUpgradeState \<Rightarrow> upgrade_state \<Rightarrow> trace
    \<Rightarrow> error option \<times> trace" where
  "ProcessDoneOrUnknownNodes m currentClusterState nodeStateName tr =
     forEach (ProcessDoneOrUnknownNodes_body m nodeStateName)
       (NodeStates currentClusterState nodeStateName) tr"

text \<open>The loop of \<open>ProcessUpgradeRequiredNodes\<close> carries \<open>limit\<close>; \<open>limit--\<close> runs only
  for a positive limit, so it does not wrap.\<close>

fun ProcessUpgradeRequiredNodes_loop ::
  "ClusterUpgradeStateManager \<Rightarrow> NodeUpgradeState list \<Rightarrow> int \<Rightarrow> trace
    \<Rightarrow> error option \<times> trace" where
  "ProcessUpgradeRequiredNodes_loop m [] limit tr = (None, tr)"
| "ProcessUpgradeRequiredNodes_loop m (nodeState # rest) limit tr =
     (if limit \<le> 0 then (None, tr)
      else if skipNodeUpgrade m (Node nodeState)
      then ProcessUpgradeRequiredNodes_loop m rest limit tr
      else (case invoke (NodeUpgradeStateProvider m)
                   (ChangeNodeUpgradeState (Node nodeState) UpgradeStateCordonRequired) tr of
              (None, tr1) \<Rightarrow> ProcessUpgradeRequiredNodes_loop m rest (limit - 1) tr1
            | (Some err, tr1) \<Rightarrow> (Some err, tr1)))"

definition ProcessUpgradeRequiredNodes ::
  "ClusterUpgradeStateManager \<Rightarrow> ClusterUpgradeState \<Rightarrow> int \<Rightarrow> trace
    \<Rightarrow> error option \<times> trace" where
  "ProcessUpgradeRequiredNodes m currentClusterState limit tr =
     ProcessUpgradeRequiredNodes_loop m
       (NodeStates currentClusterState UpgradeStateUpgradeRequired) limit tr"

definition ProcessCordonRequiredNodes_body ::
  "ClusterUpgradeStateManager \<Rightarrow> NodeUpgradeState \<Rightarrow> trace \<Rightarrow> error option \<times> trace" where
  "ProcessCordonRequiredNodes_body m nodeState tr =
     (case invoke (CordonManager m) (Cordon (Node nodeState)) tr of
        (Some err, tr1) \<Rightarrow> (Some err, tr1)
      | (None, tr1) \<Rightarrow>
          invoke (NodeUpgradeStateProvider m)
            (ChangeNodeUpgradeState (Node nodeState) UpgradeStateWaitForJobsRequired) tr1)"

definition ProcessCordonRequiredNodes ::
  "ClusterUpgradeStateManager \<Rightarrow> ClusterUpgradeState \<Rightarrow> trace \<Rightarrow> error option \<times> trace" where
  "ProcessCordonRequiredNodes m currentClusterState tr =
     forEach (ProcessCordonRequiredNodes_body m)
       (NodeStates currentClusterState UpgradeStateCordonRequired) tr"

definition noPodSelector :: "WaitForCompletionSpec option \<Rightarrow> bool" where
  "noPodSelector waitForCompletionSpec =
     (case waitForCompletionSpec of
        None \<Rightarrow> True
      | Some w \<Rightarrow> WaitForCompletionSpec.PodSelector w = '''')"

text \<open>The loop of \<open>ProcessWaitForJobsRequiredNodes\<close> collects the nodes and, without a
  selector, writes the next phase, discarding the state provider's answer.\<close>

fun ProcessWaitForJobsRequiredNodes_loop ::
  "ClusterUpgradeStateManager \<Rightarrow> WaitForCompletionSpec option \<Rightarrow> NodeUpgradeState list
    \<Rightarrow> v1_Node list \<Rightarrow> trace \<Rightarrow> v1_Node list \<times> trace" where
  "ProcessWaitForJobsRequiredNodes_loop m w [] nodes tr = (nodes, tr)"
| "ProcessWaitForJobsRequiredNodes_loop m w (nodeState # rest) nodes tr =
     ProcessWaitForJobsRequiredNodes_loop m w rest (nodes @ [Node nodeState])
       (if noPodSelector w
        then snd (invoke (NodeUpgradeStateProvider m)
                    (ChangeNodeUpgradeState (Node nodeState) UpgradeStatePodDeletionRequired) tr)
        else tr)"

definition ProcessWaitForJobsRequiredNodes ::
  "ClusterUpgradeStateManager \<Rightarrow> ClusterUpgradeState \<Rightarrow> WaitForCompletionSpec option \<Rightarrow> trace
    \<Rightarrow> error option \<times> trace" where
  "ProcessWaitForJobsRequiredNodes m currentClusterState waitForCompletionSpec tr =
     (case ProcessWaitForJobsRequiredNodes_loop m waitForCompletionSpec
             (NodeStates currentClusterState UpgradeStateWaitForJobsRequired) [] tr of
        (nodes, tr1) \<Rightarrow>
          (case waitForCompletionSpec of
             None \<Rightarrow> (None, tr1)
           | Some w \<Rightarrow>
               if WaitForCompletionSpec.PodSelector w = '''' then (None, tr1)
               else if length nodes = 0 then (None, tr1)
               else invoke (PodManager m)
                      (ScheduleCheckOnPodCompletion
                         \<lparr>Selector = WaitForCompletionSpec.PodSelector w,
                          DeletionSpec = None,
                          PodManagerConfig.Nodes = nodes\<rparr>) tr1))"

definition ProcessPodDeletionRequiredNodes ::
  "ClusterUpgradeStateManager \<Rightarrow> ClusterUpgradeState \<Rightarrow> PodDeletionSpec option \<Rightarrow> trace
    \<Rightarrow> error option \<times> trace" where
  "ProcessPodDeletionRequiredNodes m currentClusterState podDeletionSpec tr =
     (let nodes = map Node (NodeStates currentClusterState UpgradeStatePodDeletionRequired) in
      if length nodes = 0 then (None, tr)
      else invoke (PodManager m)
             (SchedulePodEviction
                \<lparr>Selector = '''', DeletionSpec = podDeletionSpec,
                 PodManagerConfig.Nodes = nodes\<rparr>) tr)"

definition ProcessDrainNodes_body ::
  "ClusterUpgradeStateManager \<Rightarrow> NodeUpgradeState \<Rightarrow> trace \<Rightarrow> error option \<times> trace" where
  "ProcessDrainNodes_body m nodeState tr =
     invoke (NodeUpgradeStateProvider m)
       (ChangeNodeUpgradeState (Node nodeState) UpgradeStatePodRestartRequired) tr"

text \<open>\<open>fmt.Sprintf("%s!=true", GetUpgradeSkipDrainPodLabelKey())\<close>.\<close>

definition skipDrainPodSelector :: "ClusterUpgradeStateManager \<Rightarrow> string" where
  "skipDrainPodSelector m = UpgradeSkipDrainPodLabelKey m @ ''!=true''"

text \<open>\<open>ProcessDrainNodes\<close> writes through its \<open>drainSpec\<close> pointer; the third component of
  the result is the drain spec object as the call leaves it.\<close>

definition ProcessDrainNodes ::
  "ClusterUpgradeStateManager \<Rightarrow> ClusterUpgradeState \<Rightarrow> DrainSpec option \<Rightarrow> trace
    \<Rightarrow> error option \<times> trace \<times> DrainSpec option" where
  "ProcessDrainNodes m currentClusterState drainSpec tr =
     (case drainSpec of
        None \<Rightarrow>
          (case forEach (ProcessDrainNodes_body m)
                  (NodeStates currentClusterState UpgradeStateDrainRequired) tr of
             (err, tr1) \<Rightarrow> (err, tr1, None))
      | Some d \<Rightarrow>
          if \<not> Enable d then
            (case forEach (ProcessDrainNodes_body m)
                    (NodeStates currentClusterState UpgradeStateDrainRequired) tr of
               (err, tr1) \<Rightarrow> (err, tr1, Some d))
          else
            (let d' = (if DrainSpec.PodSelector d = ''''
                       then d\<lparr>DrainSpec.PodSelector := skipDrainPodSelector m\<rparr>
                       else d\<lparr>DrainSpec.PodSelector :=
                                DrainSpec.PodSelector d @ '','' @ skipDrainPodSelector m\<rparr>);
                 drainConfig = \<lparr>Spec = d',
                    DrainConfiguration.Nodes =
                      map Node (NodeStates currentClusterState UpgradeStateDrainRequired)\<rparr>
             in (case invoke (DrainManager m) (ScheduleNodesDrain drainConfig) tr of
                   (err, tr1) \<Rightarrow> (err, tr1, Some d'))))"

text \<open>The block both \<open>ProcessPodRestartNodes\<close> and \<open>ProcessUpgradeFailedNodes\<close> run for
  a node whose driver pod is in sync: choose the next phase by the initial-state
  annotation, write it, and remove the annotation when the node goes to done.\<close>

definition moveInSyncNode ::
  "ClusterUpgradeStateManager \<Rightarrow> NodeUpgradeState \<Rightarrow> trace \<Rightarrow> error option \<times> trace" where
  "moveInSyncNode m nodeState tr =
     (let annotationKey = UpgradeInitialStateAnnotationKey m;
          newUpgradeState =
            (if map_of (Annotations (Node nodeState)) annotationKey \<noteq> None
             then UpgradeStateDone else UpgradeStateUncordonRequired)
      in (case invoke (NodeUpgradeStateProvider m)
                 (ChangeNodeUpgradeState (Node nodeState) newUpgradeState) tr of
            (Some err, tr1) \<Rightarrow> (Some err, tr1)
          | (None, tr1) \<Rightarrow>
              if newUpgradeState = UpgradeStateDone
              then invoke (NodeUpgradeStateProvider m)
                     (ChangeNodeUpgradeAnnotation (Node nodeState) annotationKey ''null'') tr1
              else (None, tr1)))"

fun ProcessPodRestartNodes_loop ::
  "ClusterUpgradeStateManager \<Rightarrow> NodeUpgradeState list \<Rightarrow> v1_Pod list \<Rightarrow> trace
    \<Rightarrow> (error + v1_Pod list) \<times> trace" where
  "ProcessPodRestartNodes_loop m [] pods tr = (Inr pods, tr)"
| "ProcessPodRestartNodes_loop m (nodeState # rest) pods tr =
     (case PodTemplateGeneration (DriverPod nodeState) of
        Inl err \<Rightarrow> (Inl err, tr)
      | Inr podTemplateGeneration \<Rightarrow>
          if podTemplateGeneration \<noteq> Generation (DriverDaemonSet nodeState) then
            ProcessPodRestartNodes_loop m rest
              (if IsZero (DeletionTimestamp (DriverPod nodeState))
               then pods @ [DriverPod nodeState] else pods) tr
          else
            (case isDriverPodInSync nodeState of
               Inl err \<Rightarrow> (Inl err, tr)
             | Inr driverPodInSync \<Rightarrow>
                 if driverPodInSync then
                   (case moveInSyncNode m nodeState tr of
                      (Some err, tr1) \<Rightarrow> (Inl err, tr1)
                    | (None, tr1) \<Rightarrow> ProcessPodRestartNodes_loop m rest pods tr1)
                 else ProcessPodRestartNodes_loop m rest pods tr))"

definition ProcessPodRestartNodes ::
  "ClusterUpgradeStateManager \<Rightarrow> ClusterUpgradeState \<Rightarrow> trace \<Rightarrow> error option \<times> trace" where
  "ProcessPodRestartNodes m currentClusterState tr =
     (case ProcessPodRestartNodes_loop m
             (NodeStates currentClusterState UpgradeStatePodRestartRequired) [] tr of
        (Inl err, tr1) \<Rightarrow> (Some err, tr1)
      | (Inr pods, tr1) \<Rightarrow> invoke (PodManager m) (SchedulePodsRestart pods) tr1)"

definition ProcessUpgradeFailedNodes_body ::
  "ClusterUpgradeStateManager \<Rightarrow> NodeUpgradeState \<Rightarrow> trace \<Rightarrow> error option \<times> trace" where
  "ProcessUpgradeFailedNodes_body m nodeState tr =
     (case isDriverPodInSync nodeState of
        Inl err \<Rightarrow> (Some err, tr)
      | Inr driverPodInSync \<Rightarrow>
          if driverPodInSync then moveInSyncNode m nodeState tr else (None, tr))"

definition ProcessUpgradeFailedNodes ::
  "ClusterUpgradeStateManager \<Rightarrow> ClusterUpgradeState \<Rightarrow> trace \<Rightarrow> error option \<times> trace" where
  "ProcessUpgradeFailedNodes m currentClusterState tr =
     forEach (ProcessUpgradeFailedNodes_body m)
       (NodeStates currentClusterState UpgradeStateFailed) tr"

definition ProcessUncordonRequiredNodes_body ::
  "ClusterUpgradeStateManager \<Rightarrow> NodeUpgradeState \<Rightarrow> trace \<Rightarrow> error option \<times> trace" where
  "ProcessUncordonRequiredNodes_body m nodeState tr =
     (case invoke (CordonManager m) (Uncordon (Node nodeState)) tr of
        (Some err, tr1) \<Rightarrow> (Some err, tr1)
      | (None, tr1) \<Rightarrow>
          invoke (NodeUpgradeStateProvider m)
            (ChangeNodeUpgradeState (Node nodeState) UpgradeStateDone) tr1)"

definition ProcessUncordonRequiredNodes ::
  "ClusterUpgradeStateManager \<Rightarrow> ClusterUpgradeState \<Rightarrow> trace \<Rightarrow> error option \<times> trace" where
  "ProcessUncordonRequiredNodes m currentClusterState tr =
     forEach (ProcessUncordonRequiredNodes_body m)
       (NodeStates currentClusterState UpgradeStateUncordonRequired) tr"

section \<open>The entry point\<close>

text \<open>The sum of slice lengths stays far below \<open>2^63\<close> for slices held in memory and is
  not wrapped; the subtraction from the policy's \<open>MaxParallelUpgrades\<close> is.\<close>

definition upgradesInProgress :: "ClusterUpgradeState \<Rightarrow> int" where
  "upgradesInProgress currentState =
     int (length (NodeStates currentState UpgradeStateCordonRequired))
     + int (length (NodeStates currentState UpgradeStateDrainRequired))
     + int (length (NodeStates currentState UpgradeStatePodRestartRequired))
     + int (length (NodeStates currentState UpgradeStateWaitForJobsRequired))
     + int (length (NodeStates currentState UpgradeStatePodDeletionRequired))
     + int (length (NodeStates currentState UpgradeStateFailed))
     + int (length (NodeStates currentState UpgradeStateUncordonRequired))"

definition upgradesAvailable :: "ClusterUpgradeState \<Rightarrow> DriverUpgradePolicySpec \<Rightarrow> int" where
  "upgradesAvailable currentState upgradePolicy =
     (if MaxParallelUpgrades upgradePolicy = 0
      then int (length (NodeStates currentState UpgradeStateUpgradeRequired))
      else wrap_int (MaxParallelUpgrades upgradePolicy - upgradesInProgress currentState))"

text \<open>\<open>ApplyState\<close> returns the error, the trace, and the policy object as the call
  leaves it (the drain step writes through the policy's drain spec pointer).\<close>

definition ApplyState ::
  "ClusterUpgradeStateManager \<Rightarrow> ClusterUpgradeState option
    \<Rightarrow> DriverUpgradePolicySpec option \<Rightarrow> trace
    \<Rightarrow> error option \<times> trace \<times> DriverUpgradePolicySpec option" where
  "ApplyState m currentState upgradePolicy tr =
     (case currentState of
        None \<Rightarrow> (Some ''currentState should not be empty'', tr, upgradePolicy)
      | Some st \<Rightarrow>
     (case upgradePolicy of
        None \<Rightarrow> (None, tr, None)
      | Some pol \<Rightarrow>
     if \<not> AutoUpgrade pol then (None, tr, Some pol) else
     (case ProcessDoneOrUnknownNodes m st UpgradeStateUnknown tr of
        (Some err, t1) \<Rightarrow> (Some err, t1, Some pol)
      | (None, t1) \<Rightarrow>
     (case ProcessDoneOrUnknownNodes m st UpgradeStateDone t1 of
        (Some err, t2) \<Rightarrow> (Some err, t2, Some pol)
      | (None, t2) \<Rightarrow>
     (case ProcessUpgradeRequiredNodes m st (upgradesAvailable st pol) t2 of
        (Some err, t3) \<Rightarrow> (Some err, t3, Some pol)
      | (None, t3) \<Rightarrow>
     (case ProcessCordonRequiredNodes m st t3 of
        (Some err, t4) \<Rightarrow> (Some err, t4, Some pol)
      | (None, t4) \<Rightarrow>
     (case ProcessWaitForJobsRequiredNodes m st (WaitForCompletion pol) t4 of
        (Some err, t5) \<Rightarrow> (Some err, t5, Some pol)
      | (None, t5) \<Rightarrow>
     (case ProcessPodDeletionRequiredNodes m st (PodDeletion pol) t5 of
        (Some err, t6) \<Rightarrow> (Some err, t6, Some pol)
      | (None, t6) \<Rightarrow>
     (case ProcessDrainNodes m st (DrainSpec pol) t6 of
        (Some err, t7, d) \<Rightarrow> (Some err, t7, Some (pol\<lparr>DrainSpec := d\<rparr>))
      | (None, t7, d) \<Rightarrow>
     (case ProcessPodRestartNodes m st t7 of
        (Some err, t8) \<Rightarrow> (Some err, t8, Some (pol\<lparr>DrainSpec := d\<rparr>))
      | (None, t8) \<Rightarrow>
     (case ProcessUpgradeFailedNodes m st t8 of
        (Some err, t9) \<Rightarrow> (Some err, t9, Some (pol\<lparr>DrainSpec := d\<rparr>))
      | (None, t9) \<Rightarrow>
     (case ProcessUncordonRequiredNodes m st t9 of
        (err, t10) \<Rightarrow> (err, t10, Some (pol\<lparr>DrainSpec := d\<rparr>))))))))))))))"

section \<open>Traces and footprints\<close>

text \<open>\<open>extends P tr tr'\<close>: the trace \<open>tr'\<close> is \<open>tr\<close> followed by calls that all satisfy \<open>P\<close>.\<close>

definition extends :: "(call \<Rightarrow> bool) \<Rightarrow> trace \<Rightarrow> trace \<Rightarrow> bool" where
  "extends P tr tr' \<longleftrightarrow> (\<exists>evs. tr' = tr @ evs \<and> (\<forall>ev \<in> set evs. P (fst ev)))"

text \<open>The nodes of the units a snapshot lists under a phase, and for each processor the
  calls it can issue.\<close>

definition nodesIn :: "ClusterUpgradeState \<Rightarrow> upgrade_state \<Rightarrow> v1_Node set" where
  "nodesIn st p = Node ` set (NodeStates st p)"

definition fp_DoneOrUnknown ::
  "ClusterUpgradeStateManager \<Rightarrow> ClusterUpgradeState \<Rightarrow> upgrade_state \<Rightarrow> call \<Rightarrow> bool" where
  "fp_DoneOrUnknown m st p c \<longleftrightarrow>
     (\<exists>n \<in> nodesIn st p.
        c = ChangeNodeUpgradeAnnotation n (UpgradeInitialStateAnnotationKey m) ''true''
        \<or> c = ChangeNodeUpgradeState n UpgradeStateUpgradeRequired
        \<or> c = ChangeNodeUpgradeState n UpgradeStateDone)"

definition fp_UpgradeRequired ::
  "ClusterUpgradeStateManager \<Rightarrow> ClusterUpgradeState \<Rightarrow> call \<Rightarrow> bool" where
  "fp_UpgradeRequired m st c \<longleftrightarrow>
     (\<exists>n \<in> nodesIn st UpgradeStateUpgradeRequired.
        \<not> skipNodeUpgrade m n \<and> c = ChangeNodeUpgradeState n UpgradeStateCordonRequired)"

definition fp_CordonRequired :: "ClusterUpgradeState \<Rightarrow> call \<Rightarrow> bool" where
  "fp_CordonRequired st c \<longleftrightarrow>
     (\<exists>n \<in> nodesIn st UpgradeStateCordonRequired.
        c = Cordon n \<or> c = ChangeNodeUpgradeState n UpgradeStateWaitForJobsRequired)"

definition fp_WaitForJobs :: "ClusterUpgradeState \<Rightarrow> call \<Rightarrow> bool" where
  "fp_WaitForJobs st c \<longleftrightarrow>
     (\<exists>n \<in> nodesIn st UpgradeStateWaitForJobsRequired.
        c = ChangeNodeUpgradeState n UpgradeStatePodDeletionRequired)
     \<or> (\<exists>cfg. c = ScheduleCheckOnPodCompletion cfg)"

definition fp_PodDeletion :: "call \<Rightarrow> bool" where
  "fp_PodDeletion c \<longleftrightarrow> (\<exists>cfg. c = SchedulePodEviction cfg)"

definition drainDisabled :: "DrainSpec option \<Rightarrow> bool" where
  "drainDisabled drainSpec = (case drainSpec of None \<Rightarrow> True | Some d \<Rightarrow> \<not> Enable d)"

definition fp_Drain :: "ClusterUpgradeState \<Rightarrow> DrainSpec option \<Rightarrow> call \<Rightarrow> bool" where
  "fp_Drain st drainSpec c \<longleftrightarrow>
     (if drainDisabled drainSpec
      then \<exists>n \<in> nodesIn st UpgradeStateDrainRequired.
             c = ChangeNodeUpgradeState n UpgradeStatePodRestartRequired
      else \<exists>cfg. c = ScheduleNodesDrain cfg)"

definition fp_InSync ::
  "ClusterUpgradeStateManager \<Rightarrow> ClusterUpgradeState \<Rightarrow> upgrade_state \<Rightarrow> call \<Rightarrow> bool" where
  "fp_InSync m st p c \<longleftrightarrow>
     (\<exists>n \<in> nodesIn st p.
        c = ChangeNodeUpgradeState n UpgradeStateUncordonRequired
        \<or> c = ChangeNodeUpgradeState n UpgradeStateDone
        \<or> c = ChangeNodeUpgradeAnnotation n (UpgradeInitialStateAnnotationKey m) ''null'')"

definition fp_PodRestart ::
  "ClusterUpgradeStateManager \<Rightarrow> ClusterUpgradeState \<Rightarrow> call \<Rightarrow> bool" where
  "fp_PodRestart m st c \<longleftrightarrow>
     fp_InSync m st UpgradeStatePodRestartRequired c \<or> (\<exists>pods. c = SchedulePodsRestart pods)"

definition fp_Uncordon :: "ClusterUpgradeState \<Rightarrow> call \<Rightarrow> bool" where
  "fp_Uncordon st c \<longleftrightarrow>
     (\<exists>n \<in> nodesIn st UpgradeStateUncordonRequired.
        c = Uncordon n \<or> c = ChangeNodeUpgradeState n UpgradeStateDone)"

text \<open>The ten processors in the order the spec gives for one pass.\<close>

definition phaseProcessors ::
  "ClusterUpgradeStateManager \<Rightarrow> ClusterUpgradeState \<Rightarrow> DriverUpgradePolicySpec
    \<Rightarrow> (trace \<Rightarrow> error option \<times> trace) list" where
  "phaseProcessors m st pol =
     [ProcessDoneOrUnknownNodes m st UpgradeStateUnknown,
      ProcessDoneOrUnknownNodes m st UpgradeStateDone,
      ProcessUpgradeRequiredNodes m st (upgradesAvailable st pol),
      ProcessCordonRequiredNodes m st,
      ProcessWaitForJobsRequiredNodes m st (WaitForCompletion pol),
      ProcessPodDeletionRequiredNodes m st (PodDeletion pol),
      (\<lambda>t. case ProcessDrainNodes m st (DrainSpec pol) t of (e, t', d) \<Rightarrow> (e, t')),
      ProcessPodRestartNodes m st,
      ProcessUpgradeFailedNodes m st,
      ProcessUncordonRequiredNodes m st]"

text \<open>Every call one pass can issue.\<close>

definition fp_ApplyState ::
  "ClusterUpgradeStateManager \<Rightarrow> ClusterUpgradeState \<Rightarrow> DriverUpgradePolicySpec \<Rightarrow> call \<Rightarrow> bool" where
  "fp_ApplyState m st pol c \<longleftrightarrow>
     fp_DoneOrUnknown m st UpgradeStateUnknown c
     \<or> fp_DoneOrUnknown m st UpgradeStateDone c
     \<or> fp_UpgradeRequired m st c
     \<or> fp_CordonRequired st c
     \<or> fp_WaitForJobs st c
     \<or> fp_PodDeletion c
     \<or> fp_Drain st (DrainSpec pol) c
     \<or> fp_PodRestart m st c
     \<or> fp_InSync m st UpgradeStateFailed c
     \<or> fp_Uncordon st c"

subsection \<open>The drain selector over repeated passes\<close>

text \<open>The selector an enabled drain step leaves behind, as claim C10 words it: the
  exclusion term alone for an empty selector, else the old selector, a comma and the term.
  \<open>drainPasses\<close> runs the drain step once per snapshot on the same drain spec object;
  \<open>selectorAfter m k s\<close> is \<open>s\<close> with \<open>k\<close> copies of the term added.\<close>

definition augmentSelector :: "ClusterUpgradeStateManager \<Rightarrow> string \<Rightarrow> string" where
  "augmentSelector m s =
     (if s = '''' then skipDrainPodSelector m else s @ '','' @ skipDrainPodSelector m)"



subsection \<open>Expected events of the generation check and of completion\<close>

text \<open>What the spec has a successful pass record for one unit under Unknown or Done:
  on a generation mismatch the annotation (for an unschedulable node only) and then the
  phase UpgradeRequired; on a match the phase Done for a unit under Unknown and nothing
  for a unit under Done.\<close>

definition doneOrUnknownEvents ::
  "ClusterUpgradeStateManager \<Rightarrow> upgrade_state \<Rightarrow> NodeUpgradeState \<Rightarrow> trace" where
  "doneOrUnknownEvents m p ns =
     (if PodTemplateGeneration (DriverPod ns) \<noteq> Inr (Generation (DriverDaemonSet ns)) then
        (if Unschedulable (Node ns)
         then [(ChangeNodeUpgradeAnnotation (Node ns) (UpgradeInitialStateAnnotationKey m)
                  ''true'', None)]
         else [])
        @ [(ChangeNodeUpgradeState (Node ns) UpgradeStateUpgradeRequired, None)]
      else if p = UpgradeStateUnknown
      then [(ChangeNodeUpgradeState (Node ns) UpgradeStateDone, None)]
      else [])"

text \<open>What the spec has recorded for an in-sync unit under PodRestartRequired or
  Failed: with the annotation present the phase Done and then the annotation written as
  \<open>null\<close>; without it the phase UncordonRequired. \<open>podsToRestart\<close> are the driver pods
  of outdated generation that are not terminating.\<close>

definition inSyncEvents :: "ClusterUpgradeStateManager \<Rightarrow> NodeUpgradeState \<Rightarrow> trace" where
  "inSyncEvents m ns =
     (if map_of (Annotations (Node ns)) (UpgradeInitialStateAnnotationKey m) \<noteq> None
      then [(ChangeNodeUpgradeState (Node ns) UpgradeStateDone, None),
            (ChangeNodeUpgradeAnnotation (Node ns) (UpgradeInitialStateAnnotationKey m)
               ''null'', None)]
      else [(ChangeNodeUpgradeState (Node ns) UpgradeStateUncordonRequired, None)])"

definition completionEvents :: "ClusterUpgradeStateManager \<Rightarrow> NodeUpgradeState \<Rightarrow> trace" where
  "completionEvents m ns = (if isDriverPodInSync ns = Inr True then inSyncEvents m ns else [])"

definition podsToRestart :: "NodeUpgradeState list \<Rightarrow> v1_Pod list" where
  "podsToRestart xs =
     map DriverPod
       (filter (\<lambda>ns. PodTemplateGeneration (DriverPod ns) \<noteq> Inr (Generation (DriverDaemonSet ns))
                      \<and> IsZero (DeletionTimestamp (DriverPod ns))) xs)"

subsection \<open>Cordoning\<close>

text \<open>Modelled from the spec: the state provider is an interface whose implementation
  lies outside this source file; by the spec a phase write is durable once it returns
  success. \<open>phaseAfter evs n p\<close> is the phase of node \<open>n\<close> after the events \<open>evs\<close>
  when it was \<open>p\<close> before: the phase of the last successful write for \<open>n\<close>.\<close>

fun phaseAfter :: "trace \<Rightarrow> v1_Node \<Rightarrow> upgrade_state \<Rightarrow> upgrade_state" where
  "phaseAfter [] n p = p"
| "phaseAfter ((ChangeNodeUpgradeState n' q, None) # evs) n p =
     phaseAfter evs n (if n' = n then q else p)"
| "phaseAfter (ev # evs) n p = phaseAfter evs n p"

text \<open>The events of a unit that is cordoned and advanced.\<close>

definition cordonEvents :: "NodeUpgradeState \<Rightarrow> trace" where
  "cordonEvents ns =
     [(Cordon (Node ns), None),
      (ChangeNodeUpgradeState (Node ns) UpgradeStateWaitForJobsRequired, None)]"

text \<open>\<open>failsLast r evs\<close>: every call of \<open>evs\<close> succeeded, except that for \<open>r\<close> an error
  the last call failed with it. \<open>cordonLoopOk\<close> collects what the cordon loop over the
  units \<open>xs\<close> leaves behind.\<close>

definition failsLast :: "error option \<Rightarrow> trace \<Rightarrow> bool" where
  "failsLast r evs \<longleftrightarrow>
     (case r of
        None \<Rightarrow> \<forall>ev \<in> set evs. snd ev = None
      | Some err \<Rightarrow> evs \<noteq> [] \<and> snd (last evs) = Some err
                    \<and> (\<forall>ev \<in> set (butlast evs). snd ev = None))"

definition cordonLoopOk :: "NodeUpgradeState list \<Rightarrow> error option \<Rightarrow> trace \<Rightarrow> bool" where
  "cordonLoopOk xs e evs \<longleftrightarrow>
     failsLast e evs
     \<and> (\<forall>ev \<in> set evs. \<exists>n \<in> Node ` set xs.
            fst ev = Cordon n
            \<or> fst ev = ChangeNodeUpgradeState n UpgradeStateWaitForJobsRequired)
     \<and> (distinct (map Node xs) \<longrightarrow>
          (\<forall>n err. (Cordon n, Some err) \<in> set evs
             \<longrightarrow> (\<forall>p r. (ChangeNodeUpgradeState n p, r) \<notin> set evs)))"

subsection \<open>Concurrency slots\<close>




section \<open>Concrete clusters\<close>

text \<open>Collaborators that always succeed, and a manager built from them.\<close>

definition always_ok :: collaborator where
  "always_ok tr c = None"

definition ex_manager :: ClusterUpgradeStateManager where
  "ex_manager =
     \<lparr>DrainManager = always_ok, PodManager = always_ok, CordonManager = always_ok,
      NodeUpgradeStateProvider = always_ok,
      UpgradeInitialStateAnnotationKey = ''node-initial-state.unschedulable'',
      UpgradeSkipNodeLabelKey = ''driver-upgrade.skip'',
      UpgradeSkipDrainPodLabelKey = ''driver-upgrade-drain.skip''\<rparr>"

definition ex_node :: "string \<Rightarrow> v1_Node" where
  "ex_node n = \<lparr>Name = n, Labels = [], Annotations = [], Unschedulable = False\<rparr>"

text \<open>A running driver pod of template generation \<open>g\<close> with the given container
  readiness flags.\<close>

definition ex_pod :: "int \<Rightarrow> bool list \<Rightarrow> v1_Pod" where
  "ex_pod g rs =
     \<lparr>PodName = ''driver'', PodTemplateGeneration = Inr g, DeletionTimestamp = None,
      Phase = ''Running'', ContainerStatuses = map (\<lambda>r. \<lparr>Ready = r\<rparr>) rs\<rparr>"

text \<open>A unit on node \<open>n\<close> whose pod has generation \<open>g\<close> under a daemon set of
  generation 2.\<close>

definition ex_unit :: "v1_Node \<Rightarrow> int \<Rightarrow> bool list \<Rightarrow> NodeUpgradeState" where
  "ex_unit n g rs =
     \<lparr>Node = n, DriverPod = ex_pod g rs, DriverDaemonSet = \<lparr>Generation = 2\<rparr>\<rparr>"

definition ex_policy :: DriverUpgradePolicySpec where
  "ex_policy =
     \<lparr>AutoUpgrade = True, MaxParallelUpgrades = 1, WaitForCompletion = None,
      PodDeletion = None, DrainSpec = None\<rparr>"

text \<open>A snapshot from an association list of phases; a manager whose cordon manager
  refuses every call.\<close>

definition ex_state :: "(upgrade_state \<times> NodeUpgradeState list) list \<Rightarrow> ClusterUpgradeState" where
  "ex_state ps = \<lparr>NodeStates = (\<lambda>p. case map_of ps p of None \<Rightarrow> [] | Some l \<Rightarrow> l)\<rparr>"

definition cordon_fails :: ClusterUpgradeStateManager where
  "cordon_fails = ex_manager\<lparr>CordonManager := (\<lambda>tr c. Some ''cordon failed'')\<rparr>"

definition ex_cluster_a :: ClusterUpgradeState where
  "ex_cluster_a = ex_state
     [(UpgradeStateUnknown, [ex_unit (ex_node ''n1'') 1 [True]]),
      (UpgradeStateCordonRequired, [ex_unit (ex_node ''n2'') 1 [True]]),
      (UpgradeStateUncordonRequired, [ex_unit (ex_node ''n3'') 2 [True]])]"



text \<open>Nodes that were unschedulable before the upgrade, carry the initial-state
  annotation, or carry the skip label.\<close>

definition ex_cordoned_node :: "string \<Rightarrow> v1_Node" where
  "ex_cordoned_node n = (ex_node n)\<lparr>Unschedulable := True\<rparr>"

definition ex_annotated_node :: "string \<Rightarrow> v1_Node" where
  "ex_annotated_node n =
     (ex_node n)\<lparr>Annotations := [(''node-initial-state.unschedulable'', ''true'')],
                 Unschedulable := True\<rparr>"

definition ex_skip_node :: "string \<Rightarrow> v1_Node" where
  "ex_skip_node n = (ex_node n)\<lparr>Labels := [(''driver-upgrade.skip'', ''true'')]\<rparr>"

definition ex_cluster_du :: ClusterUpgradeState where
  "ex_cluster_du = ex_state
     [(UpgradeStateUnknown,
       [ex_unit (ex_cordoned_node ''n1'') 1 [True], ex_unit (ex_node ''n2'') 2 [True]]),
      (UpgradeStateDone,
       [ex_unit (ex_node ''n3'') 1 [True], ex_unit (ex_node ''n4'') 2 [True]])]"

definition ex_cluster_restart :: ClusterUpgradeState where
  "ex_cluster_restart = ex_state
     [(UpgradeStatePodRestartRequired,
       [ex_unit (ex_annotated_node ''n1'') 2 [True], ex_unit (ex_node ''n2'') 2 [True],
        ex_unit (ex_node ''n3'') 1 [True]]),
      (UpgradeStateFailed, [ex_unit (ex_annotated_node ''n5'') 2 [True, True]])]"

definition ex_cluster_skip :: ClusterUpgradeState where
  "ex_cluster_skip = ex_state
     [(UpgradeStateUpgradeRequired,
       [ex_unit (ex_skip_node ''n1'') 1 [True], ex_unit (ex_node ''n2'') 1 [True]])]"



section \<open>What each processor can write to the trace\<close>

lemma invoke_eq: "invoke c a tr = (c tr a, tr @ [(a, c tr a)])"
  by (simp add: invoke_def Let_def)

lemma extends_refl: "extends P tr tr"
  by (simp add: extends_def)

lemma extends_trans: "extends P a b \<Longrightarrow> extends P b c \<Longrightarrow> extends P a c"
  by (fastforce simp: extends_def)

lemma extends_mono: "extends P a b \<Longrightarrow> (\<And>c. P c \<Longrightarrow> Q c) \<Longrightarrow> extends Q a b"
  by (auto simp: extends_def)

lemma extends_invoke: "P a \<Longrightarrow> invoke c a tr = (e, tr') \<Longrightarrow> extends P tr tr'"
  by (auto simp: extends_def invoke_eq)

lemma extends_forEach:
  "\<forall>x \<in> set xs. \<forall>t e t'. body x t = (e, t') \<longrightarrow> extends P t t'
    \<Longrightarrow> forEach body xs tr = (e, tr') \<Longrightarrow> extends P tr tr'"
proof (induction xs arbitrary: tr)
  case Nil
  then show ?case by (simp add: extends_refl)
next
  case (Cons x xs)
  obtain e1 t1 where b: "body x tr = (e1, t1)" by (cases "body x tr")
  have s1: "extends P tr t1" using Cons.prems(1) b by simp
  show ?case
  proof (cases e1)
    case None
    then have "forEach body xs t1 = (e, tr')" using Cons.prems(2) b by simp
    then have "extends P t1 tr'" using Cons.IH Cons.prems(1) by simp
    then show ?thesis using s1 extends_trans by blast
  next
    case (Some a)
    then show ?thesis using Cons.prems(2) b s1 by simp
  qed
qed


lemma DoneOrUnknown_extends:
  "ProcessDoneOrUnknownNodes m st p tr = (e, tr') \<Longrightarrow> extends (fp_DoneOrUnknown m st p) tr tr'"
  unfolding ProcessDoneOrUnknownNodes_def
  apply (erule extends_forEach [rotated])
  apply (auto simp: ProcessDoneOrUnknownNodes_body_def fp_DoneOrUnknown_def nodesIn_def invoke_eq
      extends_def split: sum.splits if_splits option.splits)
  done

lemma UpgradeRequired_loop_extends:
  "ProcessUpgradeRequiredNodes_loop m xs limit tr = (e, tr')
    \<Longrightarrow> extends (\<lambda>c. \<exists>n \<in> Node ` set xs. \<not> skipNodeUpgrade m n
          \<and> c = ChangeNodeUpgradeState n UpgradeStateCordonRequired) tr tr'"
proof (induction xs arbitrary: limit tr)
  case Nil
  then show ?case by (simp add: extends_refl)
next
  case (Cons x xs)
  let ?P = "\<lambda>ys c. \<exists>n \<in> Node ` set ys. \<not> skipNodeUpgrade m n
          \<and> c = ChangeNodeUpgradeState n UpgradeStateCordonRequired"
  have mono: "\<And>a b. extends (?P xs) a b \<Longrightarrow> extends (?P (x # xs)) a b"
    by (erule extends_mono) auto
  show ?case
  proof (cases "limit \<le> 0")
    case True
    then show ?thesis using Cons.prems by (simp add: extends_refl)
  next
    case pos: False
    show ?thesis
    proof (cases "skipNodeUpgrade m (Node x)")
      case True
      then show ?thesis using Cons.prems pos Cons.IH mono by simp
    next
      case False
      let ?c = "ChangeNodeUpgradeState (Node x) UpgradeStateCordonRequired"
      let ?t1 = "tr @ [(?c, NodeUpgradeStateProvider m tr ?c)]"
      have s1: "extends (?P (x # xs)) tr ?t1"
        using False by (auto simp: extends_def)
      show ?thesis
      proof (cases "NodeUpgradeStateProvider m tr ?c")
        case None
        then have "ProcessUpgradeRequiredNodes_loop m xs (limit - 1) ?t1 = (e, tr')"
          using Cons.prems pos False by (simp add: invoke_eq)
        then have "extends (?P (x # xs)) ?t1 tr'" using Cons.IH mono by blast
        then show ?thesis using s1 extends_trans by blast
      next
        case (Some a)
        then show ?thesis using Cons.prems pos False s1 by (auto simp: invoke_eq)
      qed
    qed
  qed
qed

lemma UpgradeRequired_extends:
  "ProcessUpgradeRequiredNodes m st limit tr = (e, tr') \<Longrightarrow> extends (fp_UpgradeRequired m st) tr tr'"
  unfolding ProcessUpgradeRequiredNodes_def fp_UpgradeRequired_def nodesIn_def
  by (rule UpgradeRequired_loop_extends)

lemma CordonRequired_extends:
  "ProcessCordonRequiredNodes m st tr = (e, tr') \<Longrightarrow> extends (fp_CordonRequired st) tr tr'"
  unfolding ProcessCordonRequiredNodes_def
  apply (erule extends_forEach [rotated])
  apply (auto simp: ProcessCordonRequiredNodes_body_def fp_CordonRequired_def nodesIn_def invoke_eq
      extends_def split: sum.splits if_splits option.splits)
  done

lemma Uncordon_extends:
  "ProcessUncordonRequiredNodes m st tr = (e, tr') \<Longrightarrow> extends (fp_Uncordon st) tr tr'"
  unfolding ProcessUncordonRequiredNodes_def
  apply (erule extends_forEach [rotated])
  apply (auto simp: ProcessUncordonRequiredNodes_body_def fp_Uncordon_def nodesIn_def invoke_eq
      extends_def split: sum.splits if_splits option.splits)
  done

lemma PodDeletion_extends:
  "ProcessPodDeletionRequiredNodes m st spec tr = (e, tr') \<Longrightarrow> extends fp_PodDeletion tr tr'"
  by (auto simp: ProcessPodDeletionRequiredNodes_def fp_PodDeletion_def invoke_eq Let_def
      extends_def split: if_splits)


lemma WaitForJobs_loop_extends:
  "ProcessWaitForJobsRequiredNodes_loop m w xs nodes tr = (nodes', tr')
    \<Longrightarrow> extends (\<lambda>c. \<exists>n \<in> Node ` set xs.
          c = ChangeNodeUpgradeState n UpgradeStatePodDeletionRequired) tr tr'
        \<and> nodes' = nodes @ map Node xs"
proof (induction xs arbitrary: nodes tr)
  case Nil
  then show ?case by (simp add: extends_refl)
next
  case (Cons x xs)
  let ?P = "\<lambda>ys c. \<exists>n \<in> Node ` set ys.
          c = ChangeNodeUpgradeState n UpgradeStatePodDeletionRequired"
  let ?t1 = "if noPodSelector w
        then snd (invoke (NodeUpgradeStateProvider m)
                    (ChangeNodeUpgradeState (Node x) UpgradeStatePodDeletionRequired) tr)
        else tr"
  have mono: "\<And>a b. extends (?P xs) a b \<Longrightarrow> extends (?P (x # xs)) a b"
    by (erule extends_mono) auto
  have s1: "extends (?P (x # xs)) tr ?t1"
    by (auto simp: extends_def invoke_eq)
  have "ProcessWaitForJobsRequiredNodes_loop m w xs (nodes @ [Node x]) ?t1 = (nodes', tr')"
    using Cons.prems by simp
  then have ih: "extends (?P xs) ?t1 tr' \<and> nodes' = (nodes @ [Node x]) @ map Node xs"
    by (rule Cons.IH)
  have "extends (?P (x # xs)) ?t1 tr'" using ih mono by blast
  with s1 have "extends (?P (x # xs)) tr tr'" by (rule extends_trans)
  moreover have "nodes' = nodes @ map Node (x # xs)" using ih by simp
  ultimately show ?case by blast
qed

lemma WaitForJobs_extends:
  "ProcessWaitForJobsRequiredNodes m st w tr = (e, tr') \<Longrightarrow> extends (fp_WaitForJobs st) tr tr'"
proof -
  assume a: "ProcessWaitForJobsRequiredNodes m st w tr = (e, tr')"
  obtain nodes t1 where l: "ProcessWaitForJobsRequiredNodes_loop m w
      (NodeStates st UpgradeStateWaitForJobsRequired) [] tr = (nodes, t1)"
    by (cases "ProcessWaitForJobsRequiredNodes_loop m w
      (NodeStates st UpgradeStateWaitForJobsRequired) [] tr")
  have "extends (fp_WaitForJobs st) tr t1"
    using WaitForJobs_loop_extends [OF l]
    by (auto simp: fp_WaitForJobs_def nodesIn_def elim!: extends_mono)
  moreover have "extends (fp_WaitForJobs st) t1 tr'"
    using a l
    by (auto simp: ProcessWaitForJobsRequiredNodes_def fp_WaitForJobs_def invoke_eq extends_def
        split: option.splits if_splits)
  ultimately show ?thesis using extends_trans by blast
qed

lemma Drain_extends:
  "ProcessDrainNodes m st ds tr = (e, tr', ds') \<Longrightarrow> extends (fp_Drain st ds) tr tr'"
proof (cases "drainDisabled ds")
  case True
  assume a: "ProcessDrainNodes m st ds tr = (e, tr', ds')"
  have "forEach (ProcessDrainNodes_body m) (NodeStates st UpgradeStateDrainRequired) tr = (e, tr')"
    using a True
    by (auto simp: ProcessDrainNodes_def drainDisabled_def split: option.splits prod.splits)
  then show ?thesis
    apply (rule extends_forEach [rotated])
    using True
    apply (auto simp: ProcessDrainNodes_body_def fp_Drain_def nodesIn_def invoke_eq extends_def)
    done
next
  case False
  assume a: "ProcessDrainNodes m st ds tr = (e, tr', ds')"
  then show ?thesis using False
    by (auto simp: ProcessDrainNodes_def drainDisabled_def fp_Drain_def invoke_eq
        extends_def Let_def split: option.splits if_splits)
qed

lemma moveInSyncNode_extends:
  "moveInSyncNode m x tr = (e, tr') \<Longrightarrow>
     extends (\<lambda>c. c = ChangeNodeUpgradeState (Node x) UpgradeStateUncordonRequired
        \<or> c = ChangeNodeUpgradeState (Node x) UpgradeStateDone
        \<or> c = ChangeNodeUpgradeAnnotation (Node x) (UpgradeInitialStateAnnotationKey m) ''null'')
       tr tr'"
  by (auto simp: moveInSyncNode_def invoke_eq extends_def Let_def split: option.splits if_splits)

lemma Failed_extends:
  "ProcessUpgradeFailedNodes m st tr = (e, tr')
    \<Longrightarrow> extends (fp_InSync m st UpgradeStateFailed) tr tr'"
  unfolding ProcessUpgradeFailedNodes_def
  apply (erule extends_forEach [rotated])
  apply (auto simp: ProcessUpgradeFailedNodes_body_def fp_InSync_def nodesIn_def extends_refl
      split: sum.splits if_splits dest!: moveInSyncNode_extends elim!: extends_mono)
  done

lemma PodRestart_loop_extends:
  "ProcessPodRestartNodes_loop m xs pods tr = (r, tr')
    \<Longrightarrow> extends (\<lambda>c. \<exists>n \<in> Node ` set xs.
          c = ChangeNodeUpgradeState n UpgradeStateUncordonRequired
          \<or> c = ChangeNodeUpgradeState n UpgradeStateDone
          \<or> c = ChangeNodeUpgradeAnnotation n (UpgradeInitialStateAnnotationKey m) ''null'')
        tr tr'"
proof (induction xs arbitrary: pods tr)
  case Nil
  then show ?case by (simp add: extends_refl)
next
  case (Cons x xs)
  let ?P = "\<lambda>ys c. \<exists>n \<in> Node ` set ys.
          c = ChangeNodeUpgradeState n UpgradeStateUncordonRequired
          \<or> c = ChangeNodeUpgradeState n UpgradeStateDone
          \<or> c = ChangeNodeUpgradeAnnotation n (UpgradeInitialStateAnnotationKey m) ''null''"
  have mono: "\<And>a b. extends (?P xs) a b \<Longrightarrow> extends (?P (x # xs)) a b"
    by (erule extends_mono) auto
  have here: "\<And>a b e. moveInSyncNode m x a = (e, b) \<Longrightarrow> extends (?P (x # xs)) a b"
    by (drule moveInSyncNode_extends, erule extends_mono) auto
  have rest: "\<And>ps a. ProcessPodRestartNodes_loop m xs ps a = (r, tr')
      \<Longrightarrow> extends (?P (x # xs)) a tr'"
    using Cons.IH mono by blast
  show ?case
    using Cons.prems
    by (auto simp: extends_refl split: sum.splits if_splits prod.splits option.splits
        dest!: here rest intro: extends_trans)
qed

lemma PodRestart_extends:
  "ProcessPodRestartNodes m st tr = (e, tr') \<Longrightarrow> extends (fp_PodRestart m st) tr tr'"
proof -
  assume a: "ProcessPodRestartNodes m st tr = (e, tr')"
  obtain r t1 where l: "ProcessPodRestartNodes_loop m
      (NodeStates st UpgradeStatePodRestartRequired) [] tr = (r, t1)"
    by (cases "ProcessPodRestartNodes_loop m
      (NodeStates st UpgradeStatePodRestartRequired) [] tr")
  have "extends (fp_PodRestart m st) tr t1"
    using PodRestart_loop_extends [OF l]
    by (auto simp: fp_PodRestart_def fp_InSync_def nodesIn_def elim!: extends_mono)
  moreover have "extends (fp_PodRestart m st) t1 tr'"
    using a l
    by (auto simp: ProcessPodRestartNodes_def fp_PodRestart_def invoke_eq extends_def
        split: sum.splits)
  ultimately show ?thesis using extends_trans by blast
qed

section \<open>A proof rule for one pass\<close>

lemma ApplyState_forEach_eq:
  "AutoUpgrade pol \<Longrightarrow>
     (case ApplyState m (Some st) (Some pol) tr of (e, t, p) \<Rightarrow> (e, t))
       = forEach (\<lambda>p. p) (phaseProcessors m st pol) tr"
  by (simp add: ApplyState_def phaseProcessors_def split: prod.split option.split)

lemma ApplyState_forEach:
  "AutoUpgrade pol \<Longrightarrow> ApplyState m (Some st) (Some pol) tr = (e, tr', pol')
    \<Longrightarrow> forEach (\<lambda>p. p) (phaseProcessors m st pol) tr = (e, tr')"
  using ApplyState_forEach_eq [of pol m st tr] by simp

lemma forEach_rule:
  assumes "forEach body xs tr = (e, tr')"
    and "I 0 tr"
    and "\<forall>i < length xs. \<forall>t r t'. I i t \<longrightarrow> body (xs ! i) t = (r, t')
           \<longrightarrow> (case r of None \<Rightarrow> I (Suc i) t' | Some err \<Rightarrow> F (Some err) t')"
    and "\<forall>t. I (length xs) t \<longrightarrow> F None t"
  shows "F e tr'"
  using assms
proof (induction xs arbitrary: tr I)
  case Nil
  then show ?case by simp
next
  case (Cons x xs)
  obtain r t1 where b: "body x tr = (r, t1)" by (cases "body x tr")
  have h: "case r of None \<Rightarrow> I (Suc 0) t1 | Some err \<Rightarrow> F (Some err) t1"
    using Cons.prems(2,3) b by fastforce
  show ?case
  proof (cases r)
    case None
    have run: "forEach body xs t1 = (e, tr')" using Cons.prems(1) b None by simp
    have i0: "(\<lambda>i. I (Suc i)) 0 t1" using h None by simp
    have st: "\<forall>i < length xs. \<forall>t r t'. (\<lambda>i. I (Suc i)) i t \<longrightarrow> body (xs ! i) t = (r, t')
           \<longrightarrow> (case r of None \<Rightarrow> (\<lambda>i. I (Suc i)) (Suc i) t' | Some err \<Rightarrow> F (Some err) t')"
      using Cons.prems(3) by fastforce
    have fin: "\<forall>t. (\<lambda>i. I (Suc i)) (length xs) t \<longrightarrow> F None t"
      using Cons.prems(4) by simp
    show ?thesis by (rule Cons.IH [OF run i0 st fin])
  next
    case (Some err)
    then show ?thesis using Cons.prems(1) b h by auto
  qed
qed


lemma ApplyState_rule:
  assumes run: "ApplyState m (Some st) (Some pol) tr = (e, tr', pol')"
    and enabled: "AutoUpgrade pol"
    and init: "I (0::nat) tr"
    and s1: "\<And>t r t'. I 0 t \<Longrightarrow> ProcessDoneOrUnknownNodes m st UpgradeStateUnknown t = (r, t')
           \<Longrightarrow> (case r of None \<Rightarrow> I 1 t' | Some err \<Rightarrow> F (Some err) t')"
    and s2: "\<And>t r t'. I 1 t \<Longrightarrow> ProcessDoneOrUnknownNodes m st UpgradeStateDone t = (r, t')
           \<Longrightarrow> (case r of None \<Rightarrow> I 2 t' | Some err \<Rightarrow> F (Some err) t')"
    and s3: "\<And>t r t'. I 2 t \<Longrightarrow> ProcessUpgradeRequiredNodes m st (upgradesAvailable st pol) t = (r, t')
           \<Longrightarrow> (case r of None \<Rightarrow> I 3 t' | Some err \<Rightarrow> F (Some err) t')"
    and s4: "\<And>t r t'. I 3 t \<Longrightarrow> ProcessCordonRequiredNodes m st t = (r, t')
           \<Longrightarrow> (case r of None \<Rightarrow> I 4 t' | Some err \<Rightarrow> F (Some err) t')"
    and s5: "\<And>t r t'. I 4 t \<Longrightarrow> ProcessWaitForJobsRequiredNodes m st (WaitForCompletion pol) t = (r, t')
           \<Longrightarrow> (case r of None \<Rightarrow> I 5 t' | Some err \<Rightarrow> F (Some err) t')"
    and s6: "\<And>t r t'. I 5 t \<Longrightarrow> ProcessPodDeletionRequiredNodes m st (PodDeletion pol) t = (r, t')
           \<Longrightarrow> (case r of None \<Rightarrow> I 6 t' | Some err \<Rightarrow> F (Some err) t')"
    and s7: "\<And>t r t' d. I 6 t \<Longrightarrow> ProcessDrainNodes m st (DrainSpec pol) t = (r, t', d)
           \<Longrightarrow> (case r of None \<Rightarrow> I 7 t' | Some err \<Rightarrow> F (Some err) t')"
    and s8: "\<And>t r t'. I 7 t \<Longrightarrow> ProcessPodRestartNodes m st t = (r, t')
           \<Longrightarrow> (case r of None \<Rightarrow> I 8 t' | Some err \<Rightarrow> F (Some err) t')"
    and s9: "\<And>t r t'. I 8 t \<Longrightarrow> ProcessUpgradeFailedNodes m st t = (r, t')
           \<Longrightarrow> (case r of None \<Rightarrow> I 9 t' | Some err \<Rightarrow> F (Some err) t')"
    and s10: "\<And>t r t'. I 9 t \<Longrightarrow> ProcessUncordonRequiredNodes m st t = (r, t')
           \<Longrightarrow> (case r of None \<Rightarrow> I 10 t' | Some err \<Rightarrow> F (Some err) t')"
    and fin: "\<And>t. I 10 t \<Longrightarrow> F None t"
  shows "F e tr'"
proof (rule forEach_rule [OF ApplyState_forEach [OF enabled run], of I F])
  have len: "length (phaseProcessors m st pol) = 10"
    by (simp add: phaseProcessors_def)
  show "I 0 tr" by fact
  show "\<forall>t. I (length (phaseProcessors m st pol)) t \<longrightarrow> F None t"
    using fin by (simp only: len) blast
  show "\<forall>i < length (phaseProcessors m st pol). \<forall>t r t'. I i t
      \<longrightarrow> (phaseProcessors m st pol ! i) t = (r, t')
      \<longrightarrow> (case r of None \<Rightarrow> I (Suc i) t' | Some err \<Rightarrow> F (Some err) t')"
  proof (intro allI impI)
    fix i t r t'
    assume i: "i < length (phaseProcessors m st pol)" and inv: "I i t"
      and b: "(phaseProcessors m st pol ! i) t = (r, t')"
    from i len have "i = 0 \<or> i = 1 \<or> i = 2 \<or> i = 3 \<or> i = 4 \<or> i = 5 \<or> i = 6 \<or> i = 7
        \<or> i = 8 \<or> i = 9"
      by arith
    then show "case r of None \<Rightarrow> I (Suc i) t' | Some err \<Rightarrow> F (Some err) t'"
    proof (elim disjE)
      assume "i = 0" then show ?thesis using inv b s1 [of t r t'] by (cases r) (simp_all add: phaseProcessors_def eval_nat_numeral)
    next
      assume "i = 1" then show ?thesis using inv b s2 [of t r t'] by (cases r) (simp_all add: phaseProcessors_def eval_nat_numeral)
    next
      assume "i = 2" then show ?thesis using inv b s3 [of t r t'] by (cases r) (simp_all add: phaseProcessors_def eval_nat_numeral)
    next
      assume "i = 3" then show ?thesis using inv b s4 [of t r t'] by (cases r) (simp_all add: phaseProcessors_def eval_nat_numeral)
    next
      assume "i = 4" then show ?thesis using inv b s5 [of t r t'] by (cases r) (simp_all add: phaseProcessors_def eval_nat_numeral)
    next
      assume "i = 5" then show ?thesis using inv b s6 [of t r t'] by (cases r) (simp_all add: phaseProcessors_def eval_nat_numeral)
    next
      assume i6: "i = 6"
      obtain d where "ProcessDrainNodes m st (DrainSpec pol) t = (r, t', d)"
        using b i6 by (auto simp: phaseProcessors_def eval_nat_numeral split: prod.splits)
      then show ?thesis using inv i6 s7 [of t r t' d] by (cases r) (simp_all add: eval_nat_numeral)
    next
      assume "i = 7" then show ?thesis using inv b s8 [of t r t'] by (cases r) (simp_all add: phaseProcessors_def eval_nat_numeral)
    next
      assume "i = 8" then show ?thesis using inv b s9 [of t r t'] by (cases r) (simp_all add: phaseProcessors_def eval_nat_numeral)
    next
      assume "i = 9" then show ?thesis using inv b s10 [of t r t'] by (cases r) (simp_all add: phaseProcessors_def eval_nat_numeral)
    qed
  qed
qed


lemma processor_extends:
  assumes "p \<in> set (phaseProcessors m st pol)" and "p t = (r, t2)"
  shows "extends (fp_ApplyState m st pol) t t2"
proof -
  let ?F = "fp_ApplyState m st pol"
  have w: "\<And>P. extends P t t2 \<Longrightarrow> (\<And>c. P c \<Longrightarrow> ?F c) \<Longrightarrow> extends ?F t t2"
    by (rule extends_mono)
  from assms(1) consider
      "p = ProcessDoneOrUnknownNodes m st UpgradeStateUnknown"
    | "p = ProcessDoneOrUnknownNodes m st UpgradeStateDone"
    | "p = ProcessUpgradeRequiredNodes m st (upgradesAvailable st pol)"
    | "p = ProcessCordonRequiredNodes m st"
    | "p = ProcessWaitForJobsRequiredNodes m st (WaitForCompletion pol)"
    | "p = ProcessPodDeletionRequiredNodes m st (PodDeletion pol)"
    | "p = (\<lambda>t. case ProcessDrainNodes m st (DrainSpec pol) t of (e, t', d) \<Rightarrow> (e, t'))"
    | "p = ProcessPodRestartNodes m st"
    | "p = ProcessUpgradeFailedNodes m st"
    | "p = ProcessUncordonRequiredNodes m st"
    by (auto simp: phaseProcessors_def)
  then show ?thesis
  proof cases
    case 1
    then show ?thesis using assms(2) by (auto dest!: DoneOrUnknown_extends elim!: w simp: fp_ApplyState_def)
  next
    case 2
    then show ?thesis using assms(2) by (auto dest!: DoneOrUnknown_extends elim!: w simp: fp_ApplyState_def)
  next
    case 3
    then show ?thesis using assms(2) by (auto dest!: UpgradeRequired_extends elim!: w simp: fp_ApplyState_def)
  next
    case 4
    then show ?thesis using assms(2) by (auto dest!: CordonRequired_extends elim!: w simp: fp_ApplyState_def)
  next
    case 5
    then show ?thesis using assms(2) by (auto dest!: WaitForJobs_extends elim!: w simp: fp_ApplyState_def)
  next
    case 6
    then show ?thesis using assms(2) by (auto dest!: PodDeletion_extends elim!: w simp: fp_ApplyState_def)
  next
    case 7
    then obtain d where "ProcessDrainNodes m st (DrainSpec pol) t = (r, t2, d)"
      using assms(2) by (auto split: prod.splits)
    then show ?thesis by (auto dest!: Drain_extends elim!: w simp: fp_ApplyState_def)
  next
    case 8
    then show ?thesis using assms(2) by (auto dest!: PodRestart_extends elim!: w simp: fp_ApplyState_def)
  next
    case 9
    then show ?thesis using assms(2) by (auto dest!: Failed_extends elim!: w simp: fp_ApplyState_def)
  next
    case 10
    then show ?thesis using assms(2) by (auto dest!: Uncordon_extends elim!: w simp: fp_ApplyState_def)
  qed
qed

lemma ApplyState_extends:
  assumes "AutoUpgrade pol" and "ApplyState m (Some st) (Some pol) tr = (e, tr', pol')"
  shows "extends (fp_ApplyState m st pol) tr tr'"
proof -
  have run: "forEach (\<lambda>p. p) (phaseProcessors m st pol) tr = (e, tr')"
    using assms by (rule ApplyState_forEach)
  show ?thesis
    by (rule extends_forEach [OF _ run]) (auto intro: processor_extends)
qed



lemma extends_drop:
  "extends P tr tr' \<Longrightarrow> \<forall>ev \<in> set (drop (length tr) tr'). P (fst ev)"
  by (auto simp: extends_def)

lemma forEach_success_concat:
  "\<forall>x \<in> set xs. \<forall>t t'. body x t = (None, t') \<longrightarrow> t' = t @ evs x
    \<Longrightarrow> forEach body xs tr = (None, tr') \<Longrightarrow> tr' = tr @ concat (map evs xs)"
proof (induction xs arbitrary: tr)
  case Nil
  then show ?case by simp
next
  case (Cons x xs)
  obtain r t1 where b: "body x tr = (r, t1)" by (cases "body x tr")
  have r: "r = None" using Cons.prems(2) b by (cases r) auto
  then have t1: "t1 = tr @ evs x" using Cons.prems(1) b by simp
  have "forEach body xs t1 = (None, tr')" using Cons.prems(2) b r by simp
  then have "tr' = t1 @ concat (map evs xs)" using Cons.IH Cons.prems(1) by simp
  then show ?case using t1 by simp
qed

text \<open>Unfolding sets for running the model on a concrete cluster.\<close>

lemmas run_defs =
  ApplyState_def ProcessDoneOrUnknownNodes_def ProcessDoneOrUnknownNodes_body_def
  ProcessUpgradeRequiredNodes_def ProcessCordonRequiredNodes_def ProcessCordonRequiredNodes_body_def
  ProcessWaitForJobsRequiredNodes_def ProcessPodDeletionRequiredNodes_def
  ProcessDrainNodes_def ProcessDrainNodes_body_def ProcessPodRestartNodes_def
  ProcessUpgradeFailedNodes_def ProcessUpgradeFailedNodes_body_def
  ProcessUncordonRequiredNodes_def ProcessUncordonRequiredNodes_body_def
  moveInSyncNode_def isDriverPodInSync_def isNodeUnschedulable_def skipNodeUpgrade_def
  noPodSelector_def IsZero_def skipDrainPodSelector_def
  upgradesAvailable_def upgradesInProgress_def wrap_int_def invoke_eq Let_def

lemmas ex_defs =
  ex_cordoned_node_def ex_annotated_node_def ex_skip_node_def
  ex_state_def ex_manager_def always_ok_def ex_node_def ex_pod_def ex_unit_def ex_policy_def

lemma forEach_success_all:
  "forEach body xs tr = (None, tr') \<Longrightarrow> \<forall>x \<in> set xs. \<exists>t t'. body x t = (None, t')"
proof (induction xs arbitrary: tr)
  case Nil
  then show ?case by simp
next
  case (Cons x xs)
  obtain r t1 where b: "body x tr = (r, t1)" by (cases "body x tr")
  have r: "r = None" using Cons.prems b by (cases r) auto
  have "forEach body xs t1 = (None, tr')" using Cons.prems b r by simp
  then have "\<forall>y \<in> set xs. \<exists>t t'. body y t = (None, t')" by (rule Cons.IH)
  then show ?case using b r by auto
qed

text \<open>A pass in which the cordon manager refuses the only node to cordon.\<close>

lemma ex_cluster_a_run:
  "ApplyState cordon_fails (Some ex_cluster_a) (Some ex_policy) []
     = (Some ''cordon failed'',
        [(ChangeNodeUpgradeState (ex_node ''n1'') UpgradeStateUpgradeRequired, None),
         (Cordon (ex_node ''n2''), Some ''cordon failed'')],
        Some ex_policy)"
  by (simp add: run_defs ex_defs cordon_fails_def ex_cluster_a_def)

section \<open>Concurrency slots\<close>












section \<open>Order of the phase processors\<close>



section \<open>Unknown and Done nodes\<close>

lemma DoneOrUnknown_body_success:
  "ProcessDoneOrUnknownNodes_body m p ns t = (None, t')
    \<Longrightarrow> t' = t @ doneOrUnknownEvents m p ns
        \<and> (\<exists>g. PodTemplateGeneration (DriverPod ns) = Inr g)"
  by (auto simp: ProcessDoneOrUnknownNodes_body_def doneOrUnknownEvents_def invoke_eq
      isNodeUnschedulable_def split: sum.splits if_splits option.splits)

lemma DoneOrUnknown_success:
  assumes "ProcessDoneOrUnknownNodes m st p tr = (None, tr')"
  shows "tr' = tr @ concat (map (doneOrUnknownEvents m p) (NodeStates st p))"
    and "\<forall>ns \<in> set (NodeStates st p). \<exists>g. PodTemplateGeneration (DriverPod ns) = Inr g"
proof -
  have run: "forEach (ProcessDoneOrUnknownNodes_body m p) (NodeStates st p) tr = (None, tr')"
    using assms by (simp add: ProcessDoneOrUnknownNodes_def)
  show "tr' = tr @ concat (map (doneOrUnknownEvents m p) (NodeStates st p))"
    by (rule forEach_success_concat [OF _ run]) (auto dest: DoneOrUnknown_body_success)
  show "\<forall>ns \<in> set (NodeStates st p). \<exists>g. PodTemplateGeneration (DriverPod ns) = Inr g"
    using forEach_success_all [OF run] DoneOrUnknown_body_success by blast
qed

lemma ApplyState_starts_with_DoneOrUnknown:
  assumes en: "AutoUpgrade pol"
    and run: "ApplyState m (Some st) (Some pol) tr = (None, tr', pol')"
  shows "\<exists>rest. tr' = tr
      @ concat (map (doneOrUnknownEvents m UpgradeStateUnknown)
                  (NodeStates st UpgradeStateUnknown))
      @ concat (map (doneOrUnknownEvents m UpgradeStateDone) (NodeStates st UpgradeStateDone))
      @ rest"
proof -
  define A where "A = concat (map (doneOrUnknownEvents m UpgradeStateUnknown)
                  (NodeStates st UpgradeStateUnknown))"
  define B where "B = concat (map (doneOrUnknownEvents m UpgradeStateDone)
                  (NodeStates st UpgradeStateDone))"
  define I where "I = (\<lambda>i t. if i = (0::nat) then t = tr else if i = 1 then t = tr @ A
                else (\<exists>rest. t = tr @ A @ B @ rest))"
  define F where "F = (\<lambda>e t. e = (None :: error option) \<longrightarrow> (\<exists>rest. t = tr @ A @ B @ rest))"
  have more: "\<And>P i t t'. 2 \<le> i \<Longrightarrow> I i t \<Longrightarrow> extends P t t' \<Longrightarrow> I (Suc i) t'"
    by (auto simp: extends_def I_def)
  have "F None tr'"
  proof (rule ApplyState_rule [OF run en, of I F])
    show "I 0 tr" by (simp add: I_def)
  next
    fix t r t' assume "I 0 t" "ProcessDoneOrUnknownNodes m st UpgradeStateUnknown t = (r, t')"
    then show "case r of None \<Rightarrow> I 1 t' | Some err \<Rightarrow> F (Some err) t'"
      by (cases r) (auto simp: I_def F_def A_def dest: DoneOrUnknown_success(1))
  next
    fix t r t' assume "I 1 t" "ProcessDoneOrUnknownNodes m st UpgradeStateDone t = (r, t')"
    then show "case r of None \<Rightarrow> I 2 t' | Some err \<Rightarrow> F (Some err) t'"
      by (cases r) (auto simp: I_def F_def B_def dest: DoneOrUnknown_success(1))
  next
    fix t r t'
    assume "I 2 t" "ProcessUpgradeRequiredNodes m st (upgradesAvailable st pol) t = (r, t')"
    then show "case r of None \<Rightarrow> I 3 t' | Some err \<Rightarrow> F (Some err) t'"
      using more [of 2 t _ t', OF _ _ UpgradeRequired_extends] by (cases r) (auto simp: F_def)
  next
    fix t r t'
    assume "I 3 t" "ProcessCordonRequiredNodes m st t = (r, t')"
    then show "case r of None \<Rightarrow> I 4 t' | Some err \<Rightarrow> F (Some err) t'"
      using more [of 3 t _ t', OF _ _ CordonRequired_extends] by (cases r) (auto simp: F_def)
  next
    fix t r t'
    assume "I 4 t" "ProcessWaitForJobsRequiredNodes m st (WaitForCompletion pol) t = (r, t')"
    then show "case r of None \<Rightarrow> I 5 t' | Some err \<Rightarrow> F (Some err) t'"
      using more [of 4 t _ t', OF _ _ WaitForJobs_extends] by (cases r) (auto simp: F_def)
  next
    fix t r t'
    assume "I 5 t" "ProcessPodDeletionRequiredNodes m st (PodDeletion pol) t = (r, t')"
    then show "case r of None \<Rightarrow> I 6 t' | Some err \<Rightarrow> F (Some err) t'"
      using more [of 5 t _ t', OF _ _ PodDeletion_extends] by (cases r) (auto simp: F_def)
  next
    fix t r t' d
    assume "I 6 t" "ProcessDrainNodes m st (DrainSpec pol) t = (r, t', d)"
    then show "case r of None \<Rightarrow> I 7 t' | Some err \<Rightarrow> F (Some err) t'"
      using more [of 6 t _ t', OF _ _ Drain_extends] by (cases r) (auto simp: F_def)
  next
    fix t r t'
    assume "I 7 t" "ProcessPodRestartNodes m st t = (r, t')"
    then show "case r of None \<Rightarrow> I 8 t' | Some err \<Rightarrow> F (Some err) t'"
      using more [of 7 t _ t', OF _ _ PodRestart_extends] by (cases r) (auto simp: F_def)
  next
    fix t r t'
    assume "I 8 t" "ProcessUpgradeFailedNodes m st t = (r, t')"
    then show "case r of None \<Rightarrow> I 9 t' | Some err \<Rightarrow> F (Some err) t'"
      using more [of 8 t _ t', OF _ _ Failed_extends] by (cases r) (auto simp: F_def)
  next
    fix t r t'
    assume "I 9 t" "ProcessUncordonRequiredNodes m st t = (r, t')"
    then show "case r of None \<Rightarrow> I 10 t' | Some err \<Rightarrow> F (Some err) t'"
      using more [of 9 t _ t', OF _ _ Uncordon_extends] by (cases r) (auto simp: F_def)
  next
    fix t assume "I 10 t" then show "F None t" by (simp add: I_def F_def)
  qed
  then show ?thesis by (simp add: F_def A_def B_def)
qed

lemma DoneOrUnknown_body_calls:
  assumes "PodTemplateGeneration (DriverPod ns) = Inr g"
    and "ProcessDoneOrUnknownNodes_body m p ns t = (r, t2)"
  shows "(g \<noteq> Generation (DriverDaemonSet ns) \<longrightarrow>
            (if Unschedulable (Node ns)
             then t2 = t @ [(ChangeNodeUpgradeAnnotation (Node ns)
                               (UpgradeInitialStateAnnotationKey m) ''true'', None),
                            (ChangeNodeUpgradeState (Node ns) UpgradeStateUpgradeRequired, r)]
                  \<or> (t2 = t @ [(ChangeNodeUpgradeAnnotation (Node ns)
                                   (UpgradeInitialStateAnnotationKey m) ''true'', r)]
                      \<and> r \<noteq> None)
             else t2 = t @ [(ChangeNodeUpgradeState (Node ns) UpgradeStateUpgradeRequired, r)]))
       \<and> (g = Generation (DriverDaemonSet ns) \<longrightarrow>
            (if p = UpgradeStateUnknown
             then t2 = t @ [(ChangeNodeUpgradeState (Node ns) UpgradeStateDone, r)]
             else t2 = t \<and> r = None))"
  using assms
  by (auto simp: ProcessDoneOrUnknownNodes_body_def invoke_eq isNodeUnschedulable_def
      split: option.splits if_splits)

text \<open>
  Claim C3. For one unit under Unknown or Done whose pod generation was read, the loop body
  of \<open>ProcessDoneOrUnknownNodes\<close> does the following, \<open>r\<close> being what it returns: on a
  generation mismatch, for an unschedulable node it writes the annotation \<open>true\<close> and, if
  that succeeded, next the phase UpgradeRequired (if the annotation write failed, nothing
  else), and for a schedulable node it writes the phase UpgradeRequired only; on equal
  generations it writes the phase Done for a unit under Unknown and issues no call for a
  unit under Done. When the processor returns no error, every pod generation was read and
  the trace grew by exactly the events of \<open>doneOrUnknownEvents\<close>, unit after unit; a pass of
  \<open>ApplyState\<close> that returns no error starts with these events for Unknown and then for
  Done.
\<close>

theorem DoneOrUnknown_transitions:
  "(PodTemplateGeneration (DriverPod ns) = Inr g
      \<longrightarrow> ProcessDoneOrUnknownNodes_body m p ns t = (r, t2)
      \<longrightarrow> (g \<noteq> Generation (DriverDaemonSet ns) \<longrightarrow>
            (if Unschedulable (Node ns)
             then t2 = t @ [(ChangeNodeUpgradeAnnotation (Node ns)
                               (UpgradeInitialStateAnnotationKey m) ''true'', None),
                            (ChangeNodeUpgradeState (Node ns) UpgradeStateUpgradeRequired, r)]
                  \<or> (t2 = t @ [(ChangeNodeUpgradeAnnotation (Node ns)
                                   (UpgradeInitialStateAnnotationKey m) ''true'', r)]
                      \<and> r \<noteq> None)
             else t2 = t @ [(ChangeNodeUpgradeState (Node ns) UpgradeStateUpgradeRequired, r)]))
          \<and> (g = Generation (DriverDaemonSet ns) \<longrightarrow>
            (if p = UpgradeStateUnknown
             then t2 = t @ [(ChangeNodeUpgradeState (Node ns) UpgradeStateDone, r)]
             else t2 = t \<and> r = None)))
   \<and> (ProcessDoneOrUnknownNodes m st p tr = (None, tr') \<longrightarrow>
      tr' = tr @ concat (map (doneOrUnknownEvents m p) (NodeStates st p))
      \<and> (\<forall>u \<in> set (NodeStates st p). \<exists>k. PodTemplateGeneration (DriverPod u) = Inr k))
   \<and> (AutoUpgrade pol \<longrightarrow> ApplyState m (Some st) (Some pol) tr = (None, tr2, pol') \<longrightarrow>
      (\<exists>rest. tr2 = tr
         @ concat (map (doneOrUnknownEvents m UpgradeStateUnknown)
                     (NodeStates st UpgradeStateUnknown))
         @ concat (map (doneOrUnknownEvents m UpgradeStateDone)
                     (NodeStates st UpgradeStateDone))
         @ rest))"
proof (intro conjI)
  show "PodTemplateGeneration (DriverPod ns) = Inr g
      \<longrightarrow> ProcessDoneOrUnknownNodes_body m p ns t = (r, t2)
      \<longrightarrow> (g \<noteq> Generation (DriverDaemonSet ns) \<longrightarrow>
            (if Unschedulable (Node ns)
             then t2 = t @ [(ChangeNodeUpgradeAnnotation (Node ns)
                               (UpgradeInitialStateAnnotationKey m) ''true'', None),
                            (ChangeNodeUpgradeState (Node ns) UpgradeStateUpgradeRequired, r)]
                  \<or> (t2 = t @ [(ChangeNodeUpgradeAnnotation (Node ns)
                                   (UpgradeInitialStateAnnotationKey m) ''true'', r)]
                      \<and> r \<noteq> None)
             else t2 = t @ [(ChangeNodeUpgradeState (Node ns) UpgradeStateUpgradeRequired, r)]))
          \<and> (g = Generation (DriverDaemonSet ns) \<longrightarrow>
            (if p = UpgradeStateUnknown
             then t2 = t @ [(ChangeNodeUpgradeState (Node ns) UpgradeStateDone, r)]
             else t2 = t \<and> r = None))"
    by (intro impI) (rule DoneOrUnknown_body_calls)
  show "ProcessDoneOrUnknownNodes m st p tr = (None, tr') \<longrightarrow>
      tr' = tr @ concat (map (doneOrUnknownEvents m p) (NodeStates st p))
      \<and> (\<forall>u \<in> set (NodeStates st p). \<exists>k. PodTemplateGeneration (DriverPod u) = Inr k)"
    using DoneOrUnknown_success by blast
  show "AutoUpgrade pol \<longrightarrow> ApplyState m (Some st) (Some pol) tr = (None, tr2, pol') \<longrightarrow>
      (\<exists>rest. tr2 = tr
         @ concat (map (doneOrUnknownEvents m UpgradeStateUnknown)
                     (NodeStates st UpgradeStateUnknown))
         @ concat (map (doneOrUnknownEvents m UpgradeStateDone)
                     (NodeStates st UpgradeStateDone))
         @ rest)"
    using ApplyState_starts_with_DoneOrUnknown by blast
qed

theorem DoneOrUnknown_transitions_witness:
  "AutoUpgrade ex_policy
   \<and> ApplyState ex_manager (Some ex_cluster_du) (Some ex_policy) []
       = (None,
          [(ChangeNodeUpgradeAnnotation (ex_cordoned_node ''n1'')
              ''node-initial-state.unschedulable'' ''true'', None),
           (ChangeNodeUpgradeState (ex_cordoned_node ''n1'') UpgradeStateUpgradeRequired, None),
           (ChangeNodeUpgradeState (ex_node ''n2'') UpgradeStateDone, None),
           (ChangeNodeUpgradeState (ex_node ''n3'') UpgradeStateUpgradeRequired, None),
           (SchedulePodsRestart [], None)],
          Some ex_policy)
   \<and> ProcessDoneOrUnknownNodes ex_manager ex_cluster_du UpgradeStateUnknown []
       = (None, concat (map (doneOrUnknownEvents ex_manager UpgradeStateUnknown)
                         (NodeStates ex_cluster_du UpgradeStateUnknown)))"
proof -
  have en: "AutoUpgrade ex_policy" by (simp add: ex_policy_def)
  have pass: "ApplyState ex_manager (Some ex_cluster_du) (Some ex_policy) []
       = (None,
          [(ChangeNodeUpgradeAnnotation (ex_cordoned_node ''n1'')
              ''node-initial-state.unschedulable'' ''true'', None),
           (ChangeNodeUpgradeState (ex_cordoned_node ''n1'') UpgradeStateUpgradeRequired, None),
           (ChangeNodeUpgradeState (ex_node ''n2'') UpgradeStateDone, None),
           (ChangeNodeUpgradeState (ex_node ''n3'') UpgradeStateUpgradeRequired, None),
           (SchedulePodsRestart [], None)],
          Some ex_policy)"
    by (simp add: run_defs ex_defs ex_cluster_du_def)
  obtain t where step: "ProcessDoneOrUnknownNodes ex_manager ex_cluster_du UpgradeStateUnknown []
       = (None, t)"
    by (simp add: run_defs ex_defs ex_cluster_du_def)
  then have "t = concat (map (doneOrUnknownEvents ex_manager UpgradeStateUnknown)
                         (NodeStates ex_cluster_du UpgradeStateUnknown))"
    using DoneOrUnknown_transitions
      [THEN conjunct2, THEN conjunct1, of ex_manager ex_cluster_du UpgradeStateUnknown "[]" t]
    by simp
  then show ?thesis using en pass step by simp
qed

section \<open>Completion of in-sync nodes\<close>

lemma moveInSyncNode_success:
  "moveInSyncNode m ns t = (None, t') \<Longrightarrow> t' = t @ inSyncEvents m ns"
  by (auto simp: moveInSyncNode_def inSyncEvents_def invoke_eq Let_def
      split: option.splits if_splits)

lemma Failed_body_success:
  "ProcessUpgradeFailedNodes_body m ns t = (None, t') \<Longrightarrow> t' = t @ completionEvents m ns"
  by (auto simp: ProcessUpgradeFailedNodes_body_def completionEvents_def
      split: sum.splits if_splits dest: moveInSyncNode_success)

lemma Failed_success:
  assumes "ProcessUpgradeFailedNodes m st tr = (None, tr')"
  shows "tr' = tr @ concat (map (completionEvents m) (NodeStates st UpgradeStateFailed))"
proof -
  have run: "forEach (ProcessUpgradeFailedNodes_body m) (NodeStates st UpgradeStateFailed) tr
      = (None, tr')"
    using assms by (simp add: ProcessUpgradeFailedNodes_def)
  show ?thesis
    by (rule forEach_success_concat [OF _ run]) (auto dest: Failed_body_success)
qed

lemma not_in_sync_on_mismatch:
  "PodTemplateGeneration (DriverPod ns) = Inr g \<Longrightarrow> g \<noteq> Generation (DriverDaemonSet ns)
    \<Longrightarrow> completionEvents m ns = []"
  by (simp add: completionEvents_def isDriverPodInSync_def)

lemma PodRestart_loop_success:
  "ProcessPodRestartNodes_loop m xs pods tr = (Inr pods', tr')
    \<Longrightarrow> tr' = tr @ concat (map (completionEvents m) xs) \<and> pods' = pods @ podsToRestart xs"
proof (induction xs arbitrary: pods tr)
  case Nil
  then show ?case by (simp add: podsToRestart_def)
next
  case (Cons x xs)
  obtain g where g: "PodTemplateGeneration (DriverPod x) = Inr g"
    using Cons.prems by (cases "PodTemplateGeneration (DriverPod x)") auto
  show ?case
  proof (cases "g \<noteq> Generation (DriverDaemonSet x)")
    case True
    let ?pods = "if IsZero (DeletionTimestamp (DriverPod x)) then pods @ [DriverPod x] else pods"
    have "ProcessPodRestartNodes_loop m xs ?pods tr = (Inr pods', tr')"
      using Cons.prems g True by simp
    then have "tr' = tr @ concat (map (completionEvents m) xs) \<and> pods' = ?pods @ podsToRestart xs"
      by (rule Cons.IH)
    then show ?thesis
      using g True by (simp add: not_in_sync_on_mismatch podsToRestart_def)
  next
    case False
    then have same: "g = Generation (DriverDaemonSet x)" by simp
    have skip: "podsToRestart (x # xs) = podsToRestart xs"
      using g same by (simp add: podsToRestart_def)
    obtain b where b: "isDriverPodInSync x = Inr b"
      using g by (cases "isDriverPodInSync x") (auto simp: isDriverPodInSync_def split: if_splits)
    show ?thesis
    proof (cases b)
      case True
      obtain r t1 where mv: "moveInSyncNode m x tr = (r, t1)" by (cases "moveInSyncNode m x tr")
      have r: "r = None" using Cons.prems g same b True mv by (cases r) auto
      have t1: "t1 = tr @ completionEvents m x"
        using mv r b True by (simp add: completionEvents_def moveInSyncNode_success)
      have "ProcessPodRestartNodes_loop m xs pods t1 = (Inr pods', tr')"
        using Cons.prems g same b True mv r by simp
      then have "tr' = t1 @ concat (map (completionEvents m) xs) \<and> pods' = pods @ podsToRestart xs"
        by (rule Cons.IH)
      then show ?thesis using t1 skip by simp
    next
      case False
      have none: "completionEvents m x = []" using b False by (simp add: completionEvents_def)
      have "ProcessPodRestartNodes_loop m xs pods tr = (Inr pods', tr')"
        using Cons.prems g same b False by simp
      then have "tr' = tr @ concat (map (completionEvents m) xs) \<and> pods' = pods @ podsToRestart xs"
        by (rule Cons.IH)
      then show ?thesis using none skip by simp
    qed
  qed
qed

lemma PodRestart_success:
  assumes "ProcessPodRestartNodes m st tr = (None, tr')"
  shows "tr' = tr @ concat (map (completionEvents m) (NodeStates st UpgradeStatePodRestartRequired))
      @ [(SchedulePodsRestart (podsToRestart (NodeStates st UpgradeStatePodRestartRequired)), None)]"
proof -
  obtain r t1 where l: "ProcessPodRestartNodes_loop m
      (NodeStates st UpgradeStatePodRestartRequired) [] tr = (r, t1)"
    by (cases "ProcessPodRestartNodes_loop m
      (NodeStates st UpgradeStatePodRestartRequired) [] tr")
  obtain pods where r: "r = Inr pods" using assms l
    by (cases r) (auto simp: ProcessPodRestartNodes_def)
  have "t1 = tr @ concat (map (completionEvents m) (NodeStates st UpgradeStatePodRestartRequired))
      \<and> pods = [] @ podsToRestart (NodeStates st UpgradeStatePodRestartRequired)"
    using l r by (intro PodRestart_loop_success) simp
  then show ?thesis
    using assms l r by (auto simp: ProcessPodRestartNodes_def invoke_eq)
qed

lemma fp_ApplyState_Uncordon:
  "fp_ApplyState m st pol (Uncordon n) \<Longrightarrow> n \<in> nodesIn st UpgradeStateUncordonRequired"
  by (auto simp: fp_ApplyState_def fp_DoneOrUnknown_def fp_UpgradeRequired_def
      fp_CordonRequired_def fp_WaitForJobs_def fp_PodDeletion_def fp_Drain_def fp_PodRestart_def
      fp_InSync_def fp_Uncordon_def split: if_splits)

lemma moveInSyncNode_calls:
  assumes "moveInSyncNode m ns t = (r, t2)"
  shows "if map_of (Annotations (Node ns)) (UpgradeInitialStateAnnotationKey m) \<noteq> None
         then t2 = t @ [(ChangeNodeUpgradeState (Node ns) UpgradeStateDone, None),
                        (ChangeNodeUpgradeAnnotation (Node ns)
                           (UpgradeInitialStateAnnotationKey m) ''null'', r)]
              \<or> (t2 = t @ [(ChangeNodeUpgradeState (Node ns) UpgradeStateDone, r)] \<and> r \<noteq> None)
         else t2 = t @ [(ChangeNodeUpgradeState (Node ns) UpgradeStateUncordonRequired, r)]"
  using assms
  by (auto simp: moveInSyncNode_def invoke_eq Let_def split: option.splits if_splits)

lemma Failed_body_in_sync:
  "isDriverPodInSync ns = Inr True
    \<Longrightarrow> ProcessUpgradeFailedNodes_body m ns t = moveInSyncNode m ns t"
  by (simp add: ProcessUpgradeFailedNodes_body_def)

lemma PodRestart_loop_in_sync:
  "isDriverPodInSync ns = Inr True \<Longrightarrow>
     ProcessPodRestartNodes_loop m (ns # rest) pods t =
       (case moveInSyncNode m ns t of
          (Some err, t1) \<Rightarrow> (Inl err, t1)
        | (None, t1) \<Rightarrow> ProcessPodRestartNodes_loop m rest pods t1)"
  by (auto simp: isDriverPodInSync_def split: sum.splits if_splits)

text \<open>
  Claim C4. For a unit whose driver pod is in sync, \<open>ProcessUpgradeFailedNodes\<close> and
  \<open>ProcessPodRestartNodes\<close> run \<open>moveInSyncNode\<close>, which does the following, \<open>r\<close> being
  what it returns: with the initial-state annotation present it writes the phase Done and,
  if that succeeded, next the annotation as \<open>null\<close>; with the annotation absent it writes
  the phase UncordonRequired. When either processor returns no error, the trace grew, unit
  after unit, by exactly the events of \<open>completionEvents\<close> (and, for the restart step, by
  the final restart request). Neither processor ever calls uncordon, whatever it returns,
  and in a whole pass uncordon is only called for nodes the snapshot lists under
  UncordonRequired.
\<close>

theorem in_sync_node_completes:
  "(moveInSyncNode m ns t = (r, t1) \<longrightarrow>
      (if map_of (Annotations (Node ns)) (UpgradeInitialStateAnnotationKey m) \<noteq> None
       then t1 = t @ [(ChangeNodeUpgradeState (Node ns) UpgradeStateDone, None),
                      (ChangeNodeUpgradeAnnotation (Node ns)
                         (UpgradeInitialStateAnnotationKey m) ''null'', r)]
            \<or> (t1 = t @ [(ChangeNodeUpgradeState (Node ns) UpgradeStateDone, r)] \<and> r \<noteq> None)
       else t1 = t @ [(ChangeNodeUpgradeState (Node ns) UpgradeStateUncordonRequired, r)]))
   \<and> (isDriverPodInSync ns = Inr True \<longrightarrow>
        ProcessUpgradeFailedNodes_body m ns t = moveInSyncNode m ns t
        \<and> ProcessPodRestartNodes_loop m (ns # rest) pods t =
            (case moveInSyncNode m ns t of
               (Some err, t') \<Rightarrow> (Inl err, t')
             | (None, t') \<Rightarrow> ProcessPodRestartNodes_loop m rest pods t'))
   \<and> (ProcessPodRestartNodes m st tr = (None, tr') \<longrightarrow>
      tr' = tr
        @ concat (map (completionEvents m) (NodeStates st UpgradeStatePodRestartRequired))
        @ [(SchedulePodsRestart
              (podsToRestart (NodeStates st UpgradeStatePodRestartRequired)), None)])
   \<and> (ProcessUpgradeFailedNodes m st tr = (None, tr') \<longrightarrow>
      tr' = tr @ concat (map (completionEvents m) (NodeStates st UpgradeStateFailed)))
   \<and> (ProcessPodRestartNodes m st tr = (e, t2) \<or> ProcessUpgradeFailedNodes m st tr = (e, t2)
        \<longrightarrow> (\<forall>ev \<in> set (drop (length tr) t2). \<forall>n. fst ev \<noteq> Uncordon n))
   \<and> (AutoUpgrade pol \<longrightarrow> ApplyState m (Some st) (Some pol) tr = (e, t3, pol')
        \<longrightarrow> (\<forall>ev \<in> set (drop (length tr) t3). \<forall>n. fst ev = Uncordon n
               \<longrightarrow> n \<in> nodesIn st UpgradeStateUncordonRequired))"
proof (intro conjI impI)
  assume "moveInSyncNode m ns t = (r, t1)"
  then show "if map_of (Annotations (Node ns)) (UpgradeInitialStateAnnotationKey m) \<noteq> None
       then t1 = t @ [(ChangeNodeUpgradeState (Node ns) UpgradeStateDone, None),
                      (ChangeNodeUpgradeAnnotation (Node ns)
                         (UpgradeInitialStateAnnotationKey m) ''null'', r)]
            \<or> (t1 = t @ [(ChangeNodeUpgradeState (Node ns) UpgradeStateDone, r)] \<and> r \<noteq> None)
       else t1 = t @ [(ChangeNodeUpgradeState (Node ns) UpgradeStateUncordonRequired, r)]"
    by (rule moveInSyncNode_calls)
next
  assume "isDriverPodInSync ns = Inr True"
  then show "ProcessUpgradeFailedNodes_body m ns t = moveInSyncNode m ns t"
    by (rule Failed_body_in_sync)
next
  assume "isDriverPodInSync ns = Inr True"
  then show "ProcessPodRestartNodes_loop m (ns # rest) pods t =
            (case moveInSyncNode m ns t of
               (Some err, t') \<Rightarrow> (Inl err, t')
             | (None, t') \<Rightarrow> ProcessPodRestartNodes_loop m rest pods t')"
    by (rule PodRestart_loop_in_sync)
next
  assume "ProcessPodRestartNodes m st tr = (None, tr')"
  then show "tr' = tr
        @ concat (map (completionEvents m) (NodeStates st UpgradeStatePodRestartRequired))
        @ [(SchedulePodsRestart
              (podsToRestart (NodeStates st UpgradeStatePodRestartRequired)), None)]"
    by (rule PodRestart_success)
next
  assume "ProcessUpgradeFailedNodes m st tr = (None, tr')"
  then show "tr' = tr @ concat (map (completionEvents m) (NodeStates st UpgradeStateFailed))"
    by (rule Failed_success)
next
  assume "ProcessPodRestartNodes m st tr = (e, t2) \<or> ProcessUpgradeFailedNodes m st tr = (e, t2)"
  then show "\<forall>ev \<in> set (drop (length tr) t2). \<forall>n. fst ev \<noteq> Uncordon n"
  proof
    assume "ProcessPodRestartNodes m st tr = (e, t2)"
    then show ?thesis
      using extends_drop [OF PodRestart_extends]
      by (fastforce simp: fp_PodRestart_def fp_InSync_def)
  next
    assume "ProcessUpgradeFailedNodes m st tr = (e, t2)"
    then show ?thesis
      using extends_drop [OF Failed_extends]
      by (fastforce simp: fp_InSync_def)
  qed
next
  assume "AutoUpgrade pol" and "ApplyState m (Some st) (Some pol) tr = (e, t3, pol')"
  then show "\<forall>ev \<in> set (drop (length tr) t3). \<forall>n. fst ev = Uncordon n
               \<longrightarrow> n \<in> nodesIn st UpgradeStateUncordonRequired"
    using extends_drop [OF ApplyState_extends] fp_ApplyState_Uncordon by metis
qed

theorem in_sync_node_completes_witness:
  "ProcessPodRestartNodes ex_manager ex_cluster_restart []
     = (None,
        [(ChangeNodeUpgradeState (ex_annotated_node ''n1'') UpgradeStateDone, None),
         (ChangeNodeUpgradeAnnotation (ex_annotated_node ''n1'')
            ''node-initial-state.unschedulable'' ''null'', None),
         (ChangeNodeUpgradeState (ex_node ''n2'') UpgradeStateUncordonRequired, None),
         (SchedulePodsRestart [ex_pod 1 [True]], None)])
   \<and> ProcessUpgradeFailedNodes ex_manager ex_cluster_restart []
     = (None, concat (map (completionEvents ex_manager)
                       (NodeStates ex_cluster_restart UpgradeStateFailed)))
   \<and> AutoUpgrade ex_policy
   \<and> list_all (\<lambda>ev. \<forall>n. fst ev \<noteq> Uncordon n)
        (fst (snd (ApplyState ex_manager (Some ex_cluster_restart) (Some ex_policy) [])))"
proof -
  have en: "AutoUpgrade ex_policy" by (simp add: ex_policy_def)
  have restart: "ProcessPodRestartNodes ex_manager ex_cluster_restart []
     = (None,
        [(ChangeNodeUpgradeState (ex_annotated_node ''n1'') UpgradeStateDone, None),
         (ChangeNodeUpgradeAnnotation (ex_annotated_node ''n1'')
            ''node-initial-state.unschedulable'' ''null'', None),
         (ChangeNodeUpgradeState (ex_node ''n2'') UpgradeStateUncordonRequired, None),
         (SchedulePodsRestart [ex_pod 1 [True]], None)])"
    by (simp add: run_defs ex_defs ex_cluster_restart_def)
  obtain t where failed: "ProcessUpgradeFailedNodes ex_manager ex_cluster_restart [] = (None, t)"
    by (simp add: run_defs ex_defs ex_cluster_restart_def)
  obtain e t3 pol' where pass:
    "ApplyState ex_manager (Some ex_cluster_restart) (Some ex_policy) [] = (e, t3, pol')"
    by (cases "ApplyState ex_manager (Some ex_cluster_restart) (Some ex_policy) []")
  have empty: "nodesIn ex_cluster_restart UpgradeStateUncordonRequired = {}"
    by (simp add: nodesIn_def ex_cluster_restart_def ex_state_def)
  note inst = in_sync_node_completes
    [THEN conjunct2, THEN conjunct2,
      of ex_manager ex_cluster_restart "[]" t e t3 ex_policy t3 pol']
  have "t = concat (map (completionEvents ex_manager)
                       (NodeStates ex_cluster_restart UpgradeStateFailed))"
    using inst failed by simp
  moreover have "\<forall>ev \<in> set t3. \<forall>n. fst ev \<noteq> Uncordon n"
    using inst en pass empty by simp
  ultimately show ?thesis using en restart failed pass by (simp add: list_all_iff)
qed

section \<open>Driver pod synchronisation\<close>

lemma containersReady_iff: "containersReady cs \<longleftrightarrow> (\<forall>c \<in> set cs. Ready c)"
  by (induction cs) auto

text \<open>
  Claim C5, as the code has it. A driver pod with the daemon set's generation, in phase
  Running, that reports no container status at all is judged not in sync, although each
  of its (zero) reported containers is ready.
\<close>

theorem isDriverPodInSync_no_containers:
  "isDriverPodInSync (ex_unit (ex_node ''n1'') 2 []) = Inr False
   \<and> PodTemplateGeneration (DriverPod (ex_unit (ex_node ''n1'') 2 []))
       = Inr (Generation (DriverDaemonSet (ex_unit (ex_node ''n1'') 2 [])))
   \<and> Phase (DriverPod (ex_unit (ex_node ''n1'') 2 [])) = ''Running''
   \<and> ContainerStatuses (DriverPod (ex_unit (ex_node ''n1'') 2 [])) = []"
  by (simp add: isDriverPodInSync_def ex_unit_def ex_pod_def)

text \<open>
  Claim C5, amended: the driver pod of a unit is judged in sync exactly when its template
  generation is read without error and equals the daemon set's generation, its phase is
  Running, it reports at least one container status, and every reported container is
  ready. Hence a single container that is not ready makes it not in sync.
\<close>

theorem isDriverPodInSync_iff:
  "(isDriverPodInSync nodeState = Inr True \<longleftrightarrow>
      PodTemplateGeneration (DriverPod nodeState) = Inr (Generation (DriverDaemonSet nodeState))
      \<and> Phase (DriverPod nodeState) = ''Running''
      \<and> ContainerStatuses (DriverPod nodeState) \<noteq> []
      \<and> (\<forall>c \<in> set (ContainerStatuses (DriverPod nodeState)). Ready c))
   \<and> (\<forall>c \<in> set (ContainerStatuses (DriverPod nodeState)).
        \<not> Ready c \<longrightarrow> isDriverPodInSync nodeState \<noteq> Inr True)"
  by (auto simp: isDriverPodInSync_def containersReady_iff split: sum.splits)

theorem isDriverPodInSync_iff_witness:
  "isDriverPodInSync (ex_unit (ex_node ''n1'') 2 [True, True]) = Inr True
   \<and> isDriverPodInSync (ex_unit (ex_node ''n1'') 2 [True, False]) \<noteq> Inr True"
  using isDriverPodInSync_iff [of "ex_unit (ex_node ''n1'') 2 [True, True]"]
    isDriverPodInSync_iff [of "ex_unit (ex_node ''n1'') 2 [True, False]"]
  by (simp add: ex_unit_def ex_pod_def)

section \<open>Nodes labelled to skip the upgrade\<close>

lemma UpgradeRequired_loop_no_slots:
  "limit \<le> 0 \<Longrightarrow> ProcessUpgradeRequiredNodes_loop m xs limit tr = (None, tr)"
  by (cases xs) simp_all

lemma UpgradeRequired_loop_skip:
  "skipNodeUpgrade m n \<Longrightarrow>
     ProcessUpgradeRequiredNodes_loop m xs limit tr
       = ProcessUpgradeRequiredNodes_loop m (filter (\<lambda>ns. Node ns \<noteq> n) xs) limit tr"
proof (induction xs arbitrary: limit tr)
  case Nil
  then show ?case by simp
next
  case (Cons x xs)
  show ?case
  proof (cases "limit \<le> 0")
    case True
    then show ?thesis by (simp add: UpgradeRequired_loop_no_slots)
  next
    case pos: False
    show ?thesis
    proof (cases "Node x = n")
      case True
      then show ?thesis using Cons pos by simp
    next
      case False
      then show ?thesis using Cons pos by (simp split: prod.splits option.splits)
    qed
  qed
qed

lemma fp_ApplyState_phase_write:
  assumes "fp_ApplyState m st pol (ChangeNodeUpgradeState n p)"
  shows "(\<exists>q. q \<noteq> UpgradeStateUpgradeRequired \<and> n \<in> nodesIn st q)
         \<or> (n \<in> nodesIn st UpgradeStateUpgradeRequired \<and> \<not> skipNodeUpgrade m n)"
  using assms
  unfolding fp_ApplyState_def fp_DoneOrUnknown_def fp_UpgradeRequired_def
      fp_CordonRequired_def fp_WaitForJobs_def fp_PodDeletion_def fp_Drain_def fp_PodRestart_def
      fp_InSync_def fp_Uncordon_def
  by (auto split: if_splits)

text \<open>
  Claim C6: for a node whose skip-upgrade label is \<open>true\<close>, and for every limit,
  \<open>ProcessUpgradeRequiredNodes\<close> behaves exactly as on the snapshot without the node's
  units (it takes no slot) and issues no phase write for the node; and a whole pass over
  a snapshot that lists the node under UpgradeRequired only issues no phase write for it.
\<close>

theorem skip_labelled_node_stays:
  assumes "map_of (Labels n) (UpgradeSkipNodeLabelKey m) = Some ''true''"
  shows "ProcessUpgradeRequiredNodes m st limit tr
       = ProcessUpgradeRequiredNodes m
           (st\<lparr>NodeStates := (NodeStates st)
              (UpgradeStateUpgradeRequired :=
                 filter (\<lambda>ns. Node ns \<noteq> n) (NodeStates st UpgradeStateUpgradeRequired))\<rparr>)
           limit tr
    \<and> (ProcessUpgradeRequiredNodes m st limit tr = (e, tr')
         \<longrightarrow> (\<forall>ev \<in> set (drop (length tr) tr'). \<forall>p. fst ev \<noteq> ChangeNodeUpgradeState n p))
    \<and> (AutoUpgrade pol \<longrightarrow> (\<forall>q. q \<noteq> UpgradeStateUpgradeRequired \<longrightarrow> n \<notin> nodesIn st q)
         \<longrightarrow> ApplyState m (Some st) (Some pol) tr = (e2, tr2, pol')
         \<longrightarrow> (\<forall>ev \<in> set (drop (length tr) tr2). \<forall>p. fst ev \<noteq> ChangeNodeUpgradeState n p))"
proof (intro conjI impI)
  have skip: "skipNodeUpgrade m n" using assms by (simp add: skipNodeUpgrade_def)
  show "ProcessUpgradeRequiredNodes m st limit tr
       = ProcessUpgradeRequiredNodes m
           (st\<lparr>NodeStates := (NodeStates st)
              (UpgradeStateUpgradeRequired :=
                 filter (\<lambda>ns. Node ns \<noteq> n) (NodeStates st UpgradeStateUpgradeRequired))\<rparr>)
           limit tr"
    using UpgradeRequired_loop_skip [OF skip] by (simp add: ProcessUpgradeRequiredNodes_def)
  {
    assume "ProcessUpgradeRequiredNodes m st limit tr = (e, tr')"
    then show "\<forall>ev \<in> set (drop (length tr) tr'). \<forall>p. fst ev \<noteq> ChangeNodeUpgradeState n p"
      using extends_drop [OF UpgradeRequired_extends] skip
      by (fastforce simp: fp_UpgradeRequired_def)
  }
  {
    assume "AutoUpgrade pol" and only: "\<forall>q. q \<noteq> UpgradeStateUpgradeRequired \<longrightarrow> n \<notin> nodesIn st q"
      and "ApplyState m (Some st) (Some pol) tr = (e2, tr2, pol')"
    then have "\<forall>ev \<in> set (drop (length tr) tr2). fp_ApplyState m st pol (fst ev)"
      using extends_drop [OF ApplyState_extends] by blast
    then show "\<forall>ev \<in> set (drop (length tr) tr2). \<forall>p. fst ev \<noteq> ChangeNodeUpgradeState n p"
      using fp_ApplyState_phase_write [of m st pol n] only skip by metis
  }
qed

theorem skip_labelled_node_stays_witness:
  "map_of (Labels (ex_skip_node ''n1'')) (UpgradeSkipNodeLabelKey ex_manager) = Some ''true''
   \<and> AutoUpgrade ex_policy
   \<and> ApplyState ex_manager (Some ex_cluster_skip) (Some ex_policy) []
       = (None,
          [(ChangeNodeUpgradeState (ex_node ''n2'') UpgradeStateCordonRequired, None),
           (SchedulePodsRestart [], None)],
          Some ex_policy)
   \<and> list_all (\<lambda>ev. \<forall>p. fst ev \<noteq> ChangeNodeUpgradeState (ex_skip_node ''n1'') p)
        ([(ChangeNodeUpgradeState (ex_node ''n2'') UpgradeStateCordonRequired, None),
          (SchedulePodsRestart [], None)] :: trace)"
proof -
  have label: "map_of (Labels (ex_skip_node ''n1'')) (UpgradeSkipNodeLabelKey ex_manager)
      = Some ''true''"
    by (simp add: ex_defs)
  have en: "AutoUpgrade ex_policy" by (simp add: ex_policy_def)
  have pass: "ApplyState ex_manager (Some ex_cluster_skip) (Some ex_policy) []
       = (None,
          [(ChangeNodeUpgradeState (ex_node ''n2'') UpgradeStateCordonRequired, None),
           (SchedulePodsRestart [], None)],
          Some ex_policy)"
    by (simp add: run_defs ex_defs ex_cluster_skip_def)
  have only: "\<forall>q. q \<noteq> UpgradeStateUpgradeRequired
      \<longrightarrow> ex_skip_node ''n1'' \<notin> nodesIn ex_cluster_skip q"
    by (simp add: nodesIn_def ex_cluster_skip_def ex_state_def)
  have imp: "AutoUpgrade ex_policy
      \<longrightarrow> (\<forall>q. q \<noteq> UpgradeStateUpgradeRequired
            \<longrightarrow> ex_skip_node ''n1'' \<notin> nodesIn ex_cluster_skip q)
      \<longrightarrow> ApplyState ex_manager (Some ex_cluster_skip) (Some ex_policy) []
          = (None,
             [(ChangeNodeUpgradeState (ex_node ''n2'') UpgradeStateCordonRequired, None),
              (SchedulePodsRestart [], None)],
             Some ex_policy)
      \<longrightarrow> (\<forall>ev \<in> set (drop (length ([] :: trace))
             ([(ChangeNodeUpgradeState (ex_node ''n2'') UpgradeStateCordonRequired, None),
               (SchedulePodsRestart [], None)] :: trace)).
            \<forall>p. fst ev \<noteq> ChangeNodeUpgradeState (ex_skip_node ''n1'') p)"
    by (rule skip_labelled_node_stays [OF label, THEN conjunct2, THEN conjunct2])
  have "\<forall>ev \<in> set (drop (length ([] :: trace))
          ([(ChangeNodeUpgradeState (ex_node ''n2'') UpgradeStateCordonRequired, None),
            (SchedulePodsRestart [], None)] :: trace)).
        \<forall>p. fst ev \<noteq> ChangeNodeUpgradeState (ex_skip_node ''n1'') p"
    by (rule imp [THEN mp, THEN mp, THEN mp, OF en only pass])
  then show ?thesis using label en pass by (simp add: list_all_iff)
qed

section \<open>Cordon failure\<close>

lemma failsLast_error:
  assumes "failsLast e evs" and "(c, Some err) \<in> set evs"
  shows "e = Some err \<and> last evs = (c, Some err)"
proof (cases e)
  case None
  then show ?thesis using assms by (auto simp: failsLast_def)
next
  case (Some err')
  then have ne: "evs \<noteq> []" using assms(1) by (simp add: failsLast_def)
  then obtain ys y where evs: "evs = ys @ [y]" by (cases evs rule: rev_cases) auto
  have l: "snd y = Some err'" and b: "\<forall>ev \<in> set ys. snd ev = None"
    using assms(1) Some evs by (simp_all add: failsLast_def)
  have "(c, Some err) = y" using assms(2) b evs by auto
  then show ?thesis using Some l evs by auto
qed

lemma failsLast_append:
  "\<forall>ev \<in> set xs. snd ev = None \<Longrightarrow> failsLast e ys \<Longrightarrow> failsLast e (xs @ ys)"
  by (cases e) (auto simp: failsLast_def butlast_append)

lemma phaseAfter_untouched:
  "\<forall>p r. (ChangeNodeUpgradeState n p, r) \<notin> set evs \<Longrightarrow> phaseAfter evs n p0 = p0"
  by (induction evs n p0 rule: phaseAfter.induct) auto

lemma Cordon_body_eq:
  "ProcessCordonRequiredNodes_body m ns t =
     (case CordonManager m t (Cordon (Node ns)) of
        Some err \<Rightarrow> (Some err, t @ [(Cordon (Node ns), Some err)])
      | None \<Rightarrow>
          (NodeUpgradeStateProvider m (t @ [(Cordon (Node ns), None)])
             (ChangeNodeUpgradeState (Node ns) UpgradeStateWaitForJobsRequired),
           t @ [(Cordon (Node ns), None),
                (ChangeNodeUpgradeState (Node ns) UpgradeStateWaitForJobsRequired,
                 NodeUpgradeStateProvider m (t @ [(Cordon (Node ns), None)])
                   (ChangeNodeUpgradeState (Node ns) UpgradeStateWaitForJobsRequired))]))"
  by (simp add: ProcessCordonRequiredNodes_body_def invoke_eq split: option.splits)

lemma Cordon_loop_trace:
  "forEach (ProcessCordonRequiredNodes_body m) xs tr = (e, tr')
    \<Longrightarrow> \<exists>evs. tr' = tr @ evs \<and> cordonLoopOk xs e evs"
proof (induction xs arbitrary: tr)
  case Nil
  then show ?case by (simp add: cordonLoopOk_def failsLast_def)
next
  case (Cons x xs)
  let ?c = "Cordon (Node x)"
  let ?w = "ChangeNodeUpgradeState (Node x) UpgradeStateWaitForJobsRequired"
  show ?case
  proof (cases "CordonManager m tr ?c")
    case (Some err)
    then have "e = Some err" "tr' = tr @ [(?c, Some err)]"
      using Cons.prems by (auto simp: Cordon_body_eq)
    then show ?thesis by (simp add: cordonLoopOk_def failsLast_def)
  next
    case None
    let ?r = "NodeUpgradeStateProvider m (tr @ [(?c, None)]) ?w"
    let ?t1 = "tr @ [(?c, None), (?w, ?r)]"
    have body: "ProcessCordonRequiredNodes_body m x tr = (?r, ?t1)"
      using None by (simp add: Cordon_body_eq)
    show ?thesis
    proof (cases ?r)
      case (Some err)
      then have "e = Some err" "tr' = ?t1" using Cons.prems body by auto
      then show ?thesis using Some by (simp add: cordonLoopOk_def failsLast_def)
    next
      case ok: None
      then have "forEach (ProcessCordonRequiredNodes_body m) xs ?t1 = (e, tr')"
        using Cons.prems body by simp
      then obtain evs where evs: "tr' = ?t1 @ evs" and okl: "cordonLoopOk xs e evs"
        using Cons.IH by blast
      have fl: "failsLast e ([(?c, None), (?w, None)] @ evs)"
        using okl by (intro failsLast_append) (auto simp: cordonLoopOk_def)
      have fp: "\<forall>ev \<in> set evs. \<exists>n \<in> Node ` set xs.
            fst ev = Cordon n
            \<or> fst ev = ChangeNodeUpgradeState n UpgradeStateWaitForJobsRequired"
        using okl by (simp add: cordonLoopOk_def)
      have "cordonLoopOk (x # xs) e ([(?c, None), (?w, None)] @ evs)"
        unfolding cordonLoopOk_def
      proof (intro conjI impI allI)
        show "failsLast e ([(?c, None), (?w, None)] @ evs)" by (rule fl)
        show "\<forall>ev \<in> set ([(?c, None), (?w, None)] @ evs). \<exists>n \<in> Node ` set (x # xs).
            fst ev = Cordon n
            \<or> fst ev = ChangeNodeUpgradeState n UpgradeStateWaitForJobsRequired"
          using fp by auto
      next
        fix n err p r
        assume d: "distinct (map Node (x # xs))"
          and f: "(Cordon n, Some err) \<in> set ([(?c, None), (?w, None)] @ evs)"
        then have f': "(Cordon n, Some err) \<in> set evs" by auto
        then have "n \<in> Node ` set xs" using fp by fastforce
        then have ne: "Node x \<noteq> n" using d by auto
        have "(ChangeNodeUpgradeState n p, r) \<notin> set evs"
          using okl d f' by (auto simp: cordonLoopOk_def)
        then show "(ChangeNodeUpgradeState n p, r) \<notin> set ([(?c, None), (?w, None)] @ evs)"
          using ne by auto
      qed
      then show ?thesis using evs ok by auto
    qed
  qed
qed

lemma Cordon_success:
  assumes "ProcessCordonRequiredNodes m st tr = (None, tr')"
  shows "tr' = tr @ concat (map cordonEvents (NodeStates st UpgradeStateCordonRequired))"
proof -
  have run: "forEach (ProcessCordonRequiredNodes_body m)
      (NodeStates st UpgradeStateCordonRequired) tr = (None, tr')"
    using assms by (simp add: ProcessCordonRequiredNodes_def)
  show ?thesis
    by (rule forEach_success_concat [OF _ run])
       (auto simp: Cordon_body_eq cordonEvents_def split: option.splits)
qed

lemma phaseAfter_cordonEvents:
  "n \<in> Node ` set xs \<Longrightarrow>
     phaseAfter (concat (map cordonEvents xs)) n p = UpgradeStateWaitForJobsRequired"
proof (induction xs arbitrary: p)
  case Nil
  then show ?case by simp
next
  case (Cons x xs)
  show ?case
  proof (cases "n \<in> Node ` set xs")
    case True
    then show ?thesis using Cons.IH unfolding cordonEvents_def by simp
  next
    case False
    then have here: "Node x = n" using Cons.prems by auto
    have "\<forall>q r. (ChangeNodeUpgradeState n q, r) \<notin> set (concat (map cordonEvents xs))"
      using False by (auto simp: cordonEvents_def)
    then have "phaseAfter (concat (map cordonEvents xs)) n UpgradeStateWaitForJobsRequired
        = UpgradeStateWaitForJobsRequired"
      by (rule phaseAfter_untouched)
    then show ?thesis using here unfolding cordonEvents_def by simp
  qed
qed

lemma ApplyState_cordon_failure:
  assumes en: "AutoUpgrade pol"
    and run: "ApplyState m (Some st) (Some pol) tr = (e, tr', pol')"
    and nU: "n \<notin> nodesIn st UpgradeStateUnknown"
    and nD: "n \<notin> nodesIn st UpgradeStateDone"
    and nR: "n \<notin> nodesIn st UpgradeStateUpgradeRequired"
    and dist: "distinct (map Node (NodeStates st UpgradeStateCordonRequired))"
    and fail: "(Cordon n, Some err) \<in> set (drop (length tr) tr')"
  shows "e = Some err \<and> last tr' = (Cordon n, Some err)
    \<and> (\<forall>p r. (ChangeNodeUpgradeState n p, r) \<notin> set (drop (length tr) tr'))"
proof -
  define quiet where "quiet = (\<lambda>evs :: trace. \<forall>ev \<in> set evs.
      fst ev \<noteq> Cordon n \<and> (\<forall>p. fst ev \<noteq> ChangeNodeUpgradeState n p))"
  define I where "I = (\<lambda>(i::nat) t. \<exists>evs. t = tr @ evs
      \<and> (if i \<le> 3 then quiet evs else (\<forall>x. (Cordon n, Some x) \<notin> set evs)))"
  define F where "F = (\<lambda>(r :: error option) t. \<exists>evs. t = tr @ evs
      \<and> (\<forall>x. (Cordon n, Some x) \<in> set evs \<longrightarrow>
            r = Some x \<and> last evs = (Cordon n, Some x)
            \<and> (\<forall>p a. (ChangeNodeUpgradeState n p, a) \<notin> set evs)))"
  have pre: "\<And>P i t t' r. i < 3 \<Longrightarrow> I i t \<Longrightarrow> extends P t t'
      \<Longrightarrow> (\<And>c. P c \<Longrightarrow> c \<noteq> Cordon n \<and> (\<forall>p. c \<noteq> ChangeNodeUpgradeState n p))
      \<Longrightarrow> I (Suc i) t' \<and> F r t'"
  proof -
    fix P i t t' r
    assume i: "i < 3" and inv: "I i t" and ext: "extends P t t'"
      and fp: "\<And>c. P c \<Longrightarrow> c \<noteq> Cordon n \<and> (\<forall>p. c \<noteq> ChangeNodeUpgradeState n p)"
    obtain evs0 where t: "t = tr @ evs0" and q0: "quiet evs0"
      using inv i by (auto simp: I_def)
    obtain evs1 where t': "t' = t @ evs1" and p1: "\<forall>ev \<in> set evs1. P (fst ev)"
      using ext by (auto simp: extends_def)
    have q: "quiet (evs0 @ evs1)" using q0 p1 fp by (auto simp: quiet_def)
    have no: "\<forall>x. (Cordon n, Some x) \<notin> set (evs0 @ evs1)"
      using q by (force simp: quiet_def)
    have "I (Suc i) t'" using i t t' q by (auto simp: I_def)
    moreover have "F r t'" unfolding F_def using t t' no by (intro exI [of _ "evs0 @ evs1"]) simp
    ultimately show "I (Suc i) t' \<and> F r t'" by simp
  qed
  have post: "\<And>P i t t' r. 4 \<le> i \<Longrightarrow> I i t \<Longrightarrow> extends P t t'
      \<Longrightarrow> (\<And>c. P c \<Longrightarrow> c \<noteq> Cordon n) \<Longrightarrow> I (Suc i) t' \<and> F r t'"
  proof -
    fix P i t t' r
    assume i: "4 \<le> i" and inv: "I i t" and ext: "extends P t t'"
      and fp: "\<And>c. P c \<Longrightarrow> c \<noteq> Cordon n"
    obtain evs0 where t: "t = tr @ evs0" and q0: "\<forall>x. (Cordon n, Some x) \<notin> set evs0"
      using inv i by (auto simp: I_def)
    obtain evs1 where t': "t' = t @ evs1" and p1: "\<forall>ev \<in> set evs1. P (fst ev)"
      using ext by (auto simp: extends_def)
    have no: "\<forall>x. (Cordon n, Some x) \<notin> set (evs0 @ evs1)"
      using q0 p1 fp by force
    have "I (Suc i) t'" unfolding I_def using i t t' no
      by (intro exI [of _ "evs0 @ evs1"]) simp
    moreover have "F r t'" unfolding F_def using t t' no by (intro exI [of _ "evs0 @ evs1"]) simp
    ultimately show "I (Suc i) t' \<and> F r t'" by simp
  qed
  have "F e tr'"
  proof (rule ApplyState_rule [OF run en, of I F])
    show "I 0 tr" by (simp add: I_def quiet_def)
  next
    fix t r t'
    assume "I 0 t" and "ProcessDoneOrUnknownNodes m st UpgradeStateUnknown t = (r, t')"
    then have "I (Suc 0) t' \<and> F r t'"
      using nU by (intro pre [OF _ _ DoneOrUnknown_extends]) (auto simp: fp_DoneOrUnknown_def)
    then show "case r of None \<Rightarrow> I 1 t' | Some x \<Rightarrow> F (Some x) t'"
      by (cases r) (auto simp: eval_nat_numeral)
  next
    fix t r t'
    assume "I 1 t" and "ProcessDoneOrUnknownNodes m st UpgradeStateDone t = (r, t')"
    then have "I (Suc 1) t' \<and> F r t'"
      using nD by (intro pre [OF _ _ DoneOrUnknown_extends]) (auto simp: fp_DoneOrUnknown_def)
    then show "case r of None \<Rightarrow> I 2 t' | Some x \<Rightarrow> F (Some x) t'"
      by (cases r) (auto simp: eval_nat_numeral)
  next
    fix t r t'
    assume "I 2 t" and "ProcessUpgradeRequiredNodes m st (upgradesAvailable st pol) t = (r, t')"
    then have "I (Suc 2) t' \<and> F r t'"
      using nR by (intro pre [OF _ _ UpgradeRequired_extends]) (auto simp: fp_UpgradeRequired_def)
    then show "case r of None \<Rightarrow> I 3 t' | Some x \<Rightarrow> F (Some x) t'"
      by (cases r) (auto simp: eval_nat_numeral)
  next
    fix t r t'
    assume inv: "I 3 t" and step: "ProcessCordonRequiredNodes m st t = (r, t')"
    obtain evs0 where t: "t = tr @ evs0" and q0: "quiet evs0"
      using inv by (auto simp: I_def)
    obtain evs1 where t': "t' = t @ evs1"
      and ok: "cordonLoopOk (NodeStates st UpgradeStateCordonRequired) r evs1"
      using Cordon_loop_trace step unfolding ProcessCordonRequiredNodes_def by blast
    have fl: "failsLast r evs1" using ok by (simp add: cordonLoopOk_def)
    have pure: "\<And>x. (Cordon n, Some x) \<notin> set evs0"
      using q0 by (force simp: quiet_def)
    have nowrite0: "\<And>p a. (ChangeNodeUpgradeState n p, a) \<notin> set evs0"
      using q0 by (force simp: quiet_def)
    show "case r of None \<Rightarrow> I 4 t' | Some x \<Rightarrow> F (Some x) t'"
    proof (cases r)
      case None
      then have "\<forall>ev \<in> set evs1. snd ev = None" using fl by (simp add: failsLast_def)
      then have "\<forall>x. (Cordon n, Some x) \<notin> set (evs0 @ evs1)" using pure by force
      then have "I 4 t'" unfolding I_def using t t' by (intro exI [of _ "evs0 @ evs1"]) simp
      then show ?thesis using None by simp
    next
      case (Some e1)
      have "F (Some e1) t'" unfolding F_def
      proof (intro exI [of _ "evs0 @ evs1"] conjI allI impI)
        show "t' = tr @ evs0 @ evs1" using t t' by simp
      next
        fix x assume "(Cordon n, Some x) \<in> set (evs0 @ evs1)"
        then have in1: "(Cordon n, Some x) \<in> set evs1" using pure by auto
        then have l: "r = Some x \<and> last evs1 = (Cordon n, Some x)"
          using failsLast_error [OF fl] by blast
        then show "Some e1 = Some x" using Some by simp
        have "evs1 \<noteq> []" using in1 by auto
        then show "last (evs0 @ evs1) = (Cordon n, Some x)" using l by simp
        fix p a
        have "(ChangeNodeUpgradeState n p, a) \<notin> set evs1"
          using ok dist in1 by (auto simp: cordonLoopOk_def)
        then show "(ChangeNodeUpgradeState n p, a) \<notin> set (evs0 @ evs1)"
          using nowrite0 by auto
      qed
      then show ?thesis using Some by simp
    qed
  next
    fix t r t'
    assume "I 4 t" and "ProcessWaitForJobsRequiredNodes m st (WaitForCompletion pol) t = (r, t')"
    then have "I (Suc 4) t' \<and> F r t'"
      by (intro post [OF _ _ WaitForJobs_extends]) (auto simp: fp_WaitForJobs_def split: if_splits)
    then show "case r of None \<Rightarrow> I 5 t' | Some x \<Rightarrow> F (Some x) t'"
      by (cases r) (auto simp: eval_nat_numeral)
  next
    fix t r t'
    assume "I 5 t" and "ProcessPodDeletionRequiredNodes m st (PodDeletion pol) t = (r, t')"
    then have "I (Suc 5) t' \<and> F r t'"
      by (intro post [OF _ _ PodDeletion_extends]) (auto simp: fp_PodDeletion_def split: if_splits)
    then show "case r of None \<Rightarrow> I 6 t' | Some x \<Rightarrow> F (Some x) t'"
      by (cases r) (auto simp: eval_nat_numeral)
  next
    fix t r t' d
    assume "I 6 t" and "ProcessDrainNodes m st (DrainSpec pol) t = (r, t', d)"
    then have "I (Suc 6) t' \<and> F r t'"
      by (intro post [OF _ _ Drain_extends]) (auto simp: fp_Drain_def split: if_splits)
    then show "case r of None \<Rightarrow> I 7 t' | Some x \<Rightarrow> F (Some x) t'"
      by (cases r) (auto simp: eval_nat_numeral)
  next
    fix t r t'
    assume "I 7 t" and "ProcessPodRestartNodes m st t = (r, t')"
    then have "I (Suc 7) t' \<and> F r t'"
      by (intro post [OF _ _ PodRestart_extends]) (auto simp: fp_PodRestart_def fp_InSync_def split: if_splits)
    then show "case r of None \<Rightarrow> I 8 t' | Some x \<Rightarrow> F (Some x) t'"
      by (cases r) (auto simp: eval_nat_numeral)
  next
    fix t r t'
    assume "I 8 t" and "ProcessUpgradeFailedNodes m st t = (r, t')"
    then have "I (Suc 8) t' \<and> F r t'"
      by (intro post [OF _ _ Failed_extends]) (auto simp: fp_InSync_def split: if_splits)
    then show "case r of None \<Rightarrow> I 9 t' | Some x \<Rightarrow> F (Some x) t'"
      by (cases r) (auto simp: eval_nat_numeral)
  next
    fix t r t'
    assume "I 9 t" and "ProcessUncordonRequiredNodes m st t = (r, t')"
    then have "I (Suc 9) t' \<and> F r t'"
      by (intro post [OF _ _ Uncordon_extends]) (auto simp: fp_Uncordon_def split: if_splits)
    then show "case r of None \<Rightarrow> I 10 t' | Some x \<Rightarrow> F (Some x) t'"
      by (cases r) (auto simp: eval_nat_numeral)
  next
    fix t assume "I 10 t"
    then show "F None t" by (auto simp: I_def F_def)
  qed
  then obtain evs where tr': "tr' = tr @ evs"
    and main: "\<forall>x. (Cordon n, Some x) \<in> set evs \<longrightarrow>
            e = Some x \<and> last evs = (Cordon n, Some x)
            \<and> (\<forall>p a. (ChangeNodeUpgradeState n p, a) \<notin> set evs)"
    by (auto simp: F_def)
  have in_evs: "(Cordon n, Some err) \<in> set evs" using fail tr' by simp
  then have "evs \<noteq> []" by auto
  then have "last tr' = last evs" using tr' by simp
  then show ?thesis using main in_evs tr' by simp
qed

text \<open>
  Claim C7: take a pass over a snapshot that lists node \<open>n\<close> once, under CordonRequired
  (not under Unknown, Done or UpgradeRequired, and no two CordonRequired units share a
  node). If the cordon manager answers the call for \<open>n\<close> with an error, \<open>ApplyState\<close>
  returns that error, the failed call is the last thing the pass did, no phase write for
  \<open>n\<close> was issued, and so the phase of \<open>n\<close> is still CordonRequired. If the cordon call
  for a unit succeeds, the very next call writes WaitForJobsRequired for its node and the
  answer to that write is what the loop body returns; and when the whole processor returns
  no error every unit was cordoned and every CordonRequired node is in WaitForJobsRequired.
\<close>

theorem cordon_failure_keeps_phase:
  "(AutoUpgrade pol \<longrightarrow> ApplyState m (Some st) (Some pol) tr = (e, tr', pol')
      \<longrightarrow> n \<notin> nodesIn st UpgradeStateUnknown \<longrightarrow> n \<notin> nodesIn st UpgradeStateDone
      \<longrightarrow> n \<notin> nodesIn st UpgradeStateUpgradeRequired
      \<longrightarrow> distinct (map Node (NodeStates st UpgradeStateCordonRequired))
      \<longrightarrow> (Cordon n, Some err) \<in> set (drop (length tr) tr')
      \<longrightarrow> e = Some err \<and> last tr' = (Cordon n, Some err)
          \<and> (\<forall>p r. (ChangeNodeUpgradeState n p, r) \<notin> set (drop (length tr) tr'))
          \<and> phaseAfter (drop (length tr) tr') n UpgradeStateCordonRequired
              = UpgradeStateCordonRequired)
   \<and> (CordonManager m t (Cordon (Node ns)) = None
      \<longrightarrow> ProcessCordonRequiredNodes_body m ns t = (r, t2)
      \<longrightarrow> t2 = t @ [(Cordon (Node ns), None),
                     (ChangeNodeUpgradeState (Node ns) UpgradeStateWaitForJobsRequired, r)])
   \<and> (ProcessCordonRequiredNodes m st tr = (None, tr2)
      \<longrightarrow> tr2 = tr @ concat (map cordonEvents (NodeStates st UpgradeStateCordonRequired))
          \<and> (\<forall>k \<in> nodesIn st UpgradeStateCordonRequired.
                phaseAfter (drop (length tr) tr2) k UpgradeStateCordonRequired
                  = UpgradeStateWaitForJobsRequired))"
proof (intro conjI impI)
  assume "AutoUpgrade pol" and "ApplyState m (Some st) (Some pol) tr = (e, tr', pol')"
    and "n \<notin> nodesIn st UpgradeStateUnknown" and "n \<notin> nodesIn st UpgradeStateDone"
    and "n \<notin> nodesIn st UpgradeStateUpgradeRequired"
    and "distinct (map Node (NodeStates st UpgradeStateCordonRequired))"
    and "(Cordon n, Some err) \<in> set (drop (length tr) tr')"
  then have main: "e = Some err \<and> last tr' = (Cordon n, Some err)
      \<and> (\<forall>p r. (ChangeNodeUpgradeState n p, r) \<notin> set (drop (length tr) tr'))"
    by (rule ApplyState_cordon_failure)
  then show "e = Some err" and "last tr' = (Cordon n, Some err)"
    and "\<forall>p r. (ChangeNodeUpgradeState n p, r) \<notin> set (drop (length tr) tr')"
    by simp_all
  show "phaseAfter (drop (length tr) tr') n UpgradeStateCordonRequired
      = UpgradeStateCordonRequired"
    using main by (intro phaseAfter_untouched) simp
next
  assume "CordonManager m t (Cordon (Node ns)) = None"
    and "ProcessCordonRequiredNodes_body m ns t = (r, t2)"
  then show "t2 = t @ [(Cordon (Node ns), None),
                     (ChangeNodeUpgradeState (Node ns) UpgradeStateWaitForJobsRequired, r)]"
    by (auto simp: Cordon_body_eq)
next
  assume run: "ProcessCordonRequiredNodes m st tr = (None, tr2)"
  then show eq: "tr2 = tr @ concat (map cordonEvents (NodeStates st UpgradeStateCordonRequired))"
    by (rule Cordon_success)
  show "\<forall>k \<in> nodesIn st UpgradeStateCordonRequired.
          phaseAfter (drop (length tr) tr2) k UpgradeStateCordonRequired
            = UpgradeStateWaitForJobsRequired"
    using eq by (simp add: nodesIn_def phaseAfter_cordonEvents)
qed

theorem cordon_failure_keeps_phase_witness:
  "AutoUpgrade ex_policy
   \<and> ApplyState cordon_fails (Some ex_cluster_a) (Some ex_policy) []
       = (Some ''cordon failed'',
          [(ChangeNodeUpgradeState (ex_node ''n1'') UpgradeStateUpgradeRequired, None),
           (Cordon (ex_node ''n2''), Some ''cordon failed'')],
          Some ex_policy)
   \<and> phaseAfter
         [(ChangeNodeUpgradeState (ex_node ''n1'') UpgradeStateUpgradeRequired, None),
          (Cordon (ex_node ''n2''), Some ''cordon failed'')]
         (ex_node ''n2'') UpgradeStateCordonRequired
       = UpgradeStateCordonRequired
   \<and> ProcessCordonRequiredNodes ex_manager ex_cluster_a []
       = (None, concat (map cordonEvents (NodeStates ex_cluster_a UpgradeStateCordonRequired)))"
proof -
  let ?evs = "[(ChangeNodeUpgradeState (ex_node ''n1'') UpgradeStateUpgradeRequired, None),
          (Cordon (ex_node ''n2''), Some ''cordon failed'')] :: trace"
  have en: "AutoUpgrade ex_policy" by (simp add: ex_policy_def)
  have pass: "ApplyState cordon_fails (Some ex_cluster_a) (Some ex_policy) []
       = (Some ''cordon failed'', ?evs, Some ex_policy)"
    by (rule ex_cluster_a_run)
  have nU: "ex_node ''n2'' \<notin> nodesIn ex_cluster_a UpgradeStateUnknown"
    and nD: "ex_node ''n2'' \<notin> nodesIn ex_cluster_a UpgradeStateDone"
    and nR: "ex_node ''n2'' \<notin> nodesIn ex_cluster_a UpgradeStateUpgradeRequired"
    and dist: "distinct (map Node (NodeStates ex_cluster_a UpgradeStateCordonRequired))"
    by (simp_all add: nodesIn_def ex_cluster_a_def ex_state_def ex_unit_def ex_node_def)
  have fail: "(Cordon (ex_node ''n2''), Some ''cordon failed'') \<in> set (drop (length ([] :: trace)) ?evs)"
    by simp
  obtain t where step: "ProcessCordonRequiredNodes ex_manager ex_cluster_a [] = (None, t)"
    by (simp add: run_defs ex_defs ex_cluster_a_def)
  have "phaseAfter (drop (length ([] :: trace)) ?evs) (ex_node ''n2'') UpgradeStateCordonRequired
      = UpgradeStateCordonRequired"
    using cordon_failure_keeps_phase
        [of ex_policy cordon_fails ex_cluster_a "[]" "Some ''cordon failed''" ?evs
          "Some ex_policy" "ex_node ''n2''" "''cordon failed''", THEN conjunct1]
      en pass nU nD nR dist fail by blast
  then have keep: "phaseAfter ?evs (ex_node ''n2'') UpgradeStateCordonRequired
      = UpgradeStateCordonRequired"
    by simp
  show ?thesis using en pass keep step by (simp add: run_defs ex_defs ex_cluster_a_def cordonEvents_def)
qed

section \<open>Entry guards of ApplyState\<close>

text \<open>
  Claim C8: a nil snapshot makes \<open>ApplyState\<close> return the error
  "currentState should not be empty" (the spec's InvalidInput) with the trace and the
  policy untouched; with a snapshot, a nil policy or a policy whose \<open>AutoUpgrade\<close> is
  false makes it return nil with no call issued and the policy untouched.
\<close>

theorem ApplyState_guards:
  "ApplyState m None upgradePolicy tr
     = (Some ''currentState should not be empty'', tr, upgradePolicy)
   \<and> ApplyState m (Some st) None tr = (None, tr, None)
   \<and> (\<not> AutoUpgrade pol \<longrightarrow> ApplyState m (Some st) (Some pol) tr = (None, tr, Some pol))"
  by (simp add: ApplyState_def)

theorem ApplyState_guards_witness:
  "\<not> AutoUpgrade (ex_policy\<lparr>AutoUpgrade := False\<rparr>)
   \<and> ApplyState ex_manager (Some \<lparr>NodeStates = (\<lambda>p. [ex_unit (ex_node ''n1'') 1 [True]])\<rparr>)
       (Some (ex_policy\<lparr>AutoUpgrade := False\<rparr>)) []
     = (None, [], Some (ex_policy\<lparr>AutoUpgrade := False\<rparr>))"
  using ApplyState_guards [of ex_manager None "[]"
      "\<lparr>NodeStates = (\<lambda>p. [ex_unit (ex_node ''n1'') 1 [True]])\<rparr>"
      "ex_policy\<lparr>AutoUpgrade := False\<rparr>"]
  by (simp add: ex_policy_def)

section \<open>Drain disabled\<close>






section \<open>Drain enabled: the selector written back into the policy\<close>

lemma augmentSelector_nonempty: "augmentSelector m s \<noteq> ''''"
  by (simp add: augmentSelector_def skipDrainPodSelector_def)







end
